theory Spec2Isabelle
  imports Complex_Main
begin

unbundle bit_operations_syntax

section \<open>Numbers as the evaluation code sees them\<close>

text \<open>
  The metric code of \<^verbatim>\<open>eval.py\<close> computes with NumPy floating-point scalars and
  arrays. Finite values are modelled by real numbers, and the special values of IEEE
  arithmetic are part of the model because the code depends on them: the mean of an
  empty quadrant is \<open>NaN\<close>, and \<^verbatim>\<open>compute_s_measure\<close> tests for it. Signed zeros are not
  distinguished. The operations of this section are exact; the section on rounding
  adds the rounding of the floating-point formats, and the functions whose properties
  depend on it are given with every operation rounded.
\<close>

datatype npfloat = Fin real | PInf | NInf | NaN

fun np_neg :: "npfloat \<Rightarrow> npfloat" where
  "np_neg (Fin a) = Fin (- a)"
| "np_neg PInf = NInf"
| "np_neg NInf = PInf"
| "np_neg NaN = NaN"

fun np_add :: "npfloat \<Rightarrow> npfloat \<Rightarrow> npfloat" where
  "np_add (Fin a) (Fin b) = Fin (a + b)"
| "np_add NaN _ = NaN"
| "np_add _ NaN = NaN"
| "np_add PInf NInf = NaN"
| "np_add NInf PInf = NaN"
| "np_add PInf _ = PInf"
| "np_add _ PInf = PInf"
| "np_add NInf _ = NInf"
| "np_add _ NInf = NInf"

definition np_sub :: "npfloat \<Rightarrow> npfloat \<Rightarrow> npfloat" where
  "np_sub a b = np_add a (np_neg b)"

fun np_mul :: "npfloat \<Rightarrow> npfloat \<Rightarrow> npfloat" where
  "np_mul (Fin a) (Fin b) = Fin (a * b)"
| "np_mul NaN _ = NaN"
| "np_mul _ NaN = NaN"
| "np_mul PInf (Fin b) = (if b = 0 then NaN else if 0 < b then PInf else NInf)"
| "np_mul NInf (Fin b) = (if b = 0 then NaN else if 0 < b then NInf else PInf)"
| "np_mul (Fin a) PInf = (if a = 0 then NaN else if 0 < a then PInf else NInf)"
| "np_mul (Fin a) NInf = (if a = 0 then NaN else if 0 < a then NInf else PInf)"
| "np_mul PInf PInf = PInf"
| "np_mul PInf NInf = NInf"
| "np_mul NInf PInf = NInf"
| "np_mul NInf NInf = PInf"

text \<open>
  NumPy division never raises: a zero divisor gives \<open>NaN\<close> for \<open>0/0\<close> and an infinity
  otherwise (with a warning only).
\<close>

fun np_div :: "npfloat \<Rightarrow> npfloat \<Rightarrow> npfloat" where
  "np_div (Fin a) (Fin b) =
     (if b \<noteq> 0 then Fin (a / b) else if a = 0 then NaN else if 0 < a then PInf else NInf)"
| "np_div NaN _ = NaN"
| "np_div _ NaN = NaN"
| "np_div (Fin a) PInf = Fin 0"
| "np_div (Fin a) NInf = Fin 0"
| "np_div PInf (Fin b) = (if 0 \<le> b then PInf else NInf)"
| "np_div NInf (Fin b) = (if 0 \<le> b then NInf else PInf)"
| "np_div PInf PInf = NaN"
| "np_div PInf NInf = NaN"
| "np_div NInf PInf = NaN"
| "np_div NInf NInf = NaN"

fun np_sqrt :: "npfloat \<Rightarrow> npfloat" where
  "np_sqrt (Fin a) = (if a < 0 then NaN else Fin (sqrt a))"
| "np_sqrt PInf = PInf"
| "np_sqrt NInf = NaN"
| "np_sqrt NaN = NaN"

fun np_eq :: "npfloat \<Rightarrow> npfloat \<Rightarrow> bool" where
  "np_eq (Fin a) (Fin b) = (a = b)"
| "np_eq PInf PInf = True"
| "np_eq NInf NInf = True"
| "np_eq _ _ = False"

fun np_lt :: "npfloat \<Rightarrow> npfloat \<Rightarrow> bool" where
  "np_lt (Fin a) (Fin b) = (a < b)"
| "np_lt NaN _ = False"
| "np_lt _ NaN = False"
| "np_lt NInf NInf = False"
| "np_lt NInf _ = True"
| "np_lt _ NInf = False"
| "np_lt PInf _ = False"
| "np_lt _ PInf = True"

definition np_le :: "npfloat \<Rightarrow> npfloat \<Rightarrow> bool" where
  "np_le a b = (np_lt a b \<or> np_eq a b)"

fun np_isnan :: "npfloat \<Rightarrow> bool" where
  "np_isnan NaN = True"
| "np_isnan _ = False"

primrec np_sum :: "npfloat list \<Rightarrow> npfloat" where
  "np_sum [] = Fin 0"
| "np_sum (x # xs) = np_add x (np_sum xs)"

text \<open>\<^verbatim>\<open>a.mean()\<close>: the sum over the number of elements; \<open>0/0 = NaN\<close> on an empty array.\<close>

definition np_mean :: "real list \<Rightarrow> npfloat" where
  "np_mean xs = np_div (Fin (sum_list xs)) (Fin (real (length xs)))"

text \<open>\<^verbatim>\<open>a.std()\<close>: the square root of the mean squared deviation from the mean.\<close>

definition np_std :: "real list \<Rightarrow> npfloat" where
  "np_std xs =
     (let mu = np_mean xs;
          dev = map (\<lambda>x. np_sub (Fin x) mu) xs
      in np_sqrt (np_div (np_sum (map (\<lambda>d. np_mul d d) dev)) (Fin (real (length xs)))))"

text \<open>
  Python's \<^verbatim>\<open>round\<close> and \<^verbatim>\<open>np.round\<close> both round a half to the even neighbour.
\<close>

definition round_half_even :: "real \<Rightarrow> int" where
  "round_half_even r =
     (let f = \<lfloor>r\<rfloor>; d = r - of_int f
      in if d < 1/2 then f else if 1/2 < d then f + 1 else if even f then f else f + 1)"

text \<open>
  The running scalars \<^verbatim>\<open>self.mae\<close> and \<^verbatim>\<open>self.q\<close> start as the Python integer \<open>0\<close> and
  become NumPy scalars once a NumPy value is added. The difference shows in division:
  Python's own numbers raise \<^verbatim>\<open>ZeroDivisionError\<close>, NumPy scalars do not.
\<close>

datatype pynum = PyInt int | NpFloat npfloat

datatype error = AssertionError | ZeroDivisionError | IndexError | ValueError

fun py_val :: "pynum \<Rightarrow> npfloat" where
  "py_val (PyInt k) = Fin (of_int k)"
| "py_val (NpFloat x) = x"

fun py_add :: "pynum \<Rightarrow> pynum \<Rightarrow> pynum" where
  "py_add (PyInt a) (PyInt b) = PyInt (a + b)"
| "py_add a b = NpFloat (np_add (py_val a) (py_val b))"

text \<open>\<^verbatim>\<open>x / n\<close> for a running scalar \<open>x\<close> and the Python integer \<open>n\<close>.\<close>

fun py_truediv :: "pynum \<Rightarrow> nat \<Rightarrow> error + npfloat" where
  "py_truediv (PyInt a) n =
     (if n = 0 then Inl ZeroDivisionError else Inr (Fin (of_int a / real n)))"
| "py_truediv (NpFloat x) n = Inr (np_div x (Fin (real n)))"

section \<open>Rounding\<close>

text \<open>
  NumPy and Python compute in binary floating point: the result of every operation is
  the exact result rounded to the nearest number of the format, a tie going to the
  even significand. \<open>fl p emin x\<close> is \<open>x\<close> rounded to \<open>p\<close> significant bits, with \<open>2 powi emin\<close>
  the spacing of the subnormal numbers; \<^verbatim>\<open>float64\<close> has \<open>53\<close> bits and \<^verbatim>\<open>float32\<close> has
  \<open>24\<close>. Where rounding decides a property, the functions below are given again with
  every operation rounded as the code rounds it.
\<close>

definition expo :: "real \<Rightarrow> int" where
  "expo x = \<lfloor>log 2 \<bar>x\<bar>\<rfloor>"

definition round_to :: "int \<Rightarrow> real \<Rightarrow> real" where
  "round_to e x = of_int (round_half_even (x / 2 powi e)) * 2 powi e"

definition fl :: "nat \<Rightarrow> int \<Rightarrow> real \<Rightarrow> real" where
  "fl p emin x = (if x = 0 then 0 else round_to (max (expo x - int p + 1) emin) x)"

definition fl64 :: "real \<Rightarrow> real" where
  "fl64 = fl 53 (- 1074)"

definition fl32 :: "real \<Rightarrow> real" where
  "fl32 = fl 24 (- 149)"

text \<open>
  A \<^verbatim>\<open>float64\<close> result with its special values: a result that rounds to \<open>2 ^ 1024\<close> or
  beyond is an infinity.
\<close>

fun rnd64 :: "npfloat \<Rightarrow> npfloat" where
  "rnd64 (Fin x) =
     (let y = fl64 x
      in if 2 ^ 1024 \<le> \<bar>y\<bar> then (if 0 < y then PInf else NInf) else Fin y)"
| "rnd64 PInf = PInf"
| "rnd64 NInf = NInf"
| "rnd64 NaN = NaN"

definition add64 :: "npfloat \<Rightarrow> npfloat \<Rightarrow> npfloat" where
  "add64 a b = rnd64 (np_add a b)"

definition mul64 :: "npfloat \<Rightarrow> npfloat \<Rightarrow> npfloat" where
  "mul64 a b = rnd64 (np_mul a b)"

definition div64 :: "npfloat \<Rightarrow> npfloat \<Rightarrow> npfloat" where
  "div64 a b = rnd64 (np_div a b)"

text \<open>The \<^verbatim>\<open>float64\<close> numbers that the literals \<^verbatim>\<open>1e-4\<close> and \<^verbatim>\<open>0.3\<close> denote.\<close>

definition epsilon64 :: real where
  "epsilon64 = fl64 (1 / 10 ^ 4)"

definition beta64 :: real where
  "beta64 = fl64 (3 / 10)"

section \<open>Arrays\<close>

text \<open>
  A two-dimensional array: its shape and its elements in row-major order, as NumPy
  stores them. The arrays handed to \<^verbatim>\<open>update\<close> hold finite numbers (the prediction is
  a \<^verbatim>\<open>uint8\<close> image, the label is \<open>0\<close> or \<open>255\<close>).
\<close>

record ndarray =
  nrows :: nat
  ncols :: nat
  elems :: "real list"

definition shape :: "ndarray \<Rightarrow> nat \<times> nat" where
  "shape a = (nrows a, ncols a)"

definition wf_array :: "ndarray \<Rightarrow> bool" where
  "wf_array a \<longleftrightarrow> length (elems a) = nrows a * ncols a"

text \<open>\<^verbatim>\<open>a.astype(np.float32)\<close>: a new array with the same values.\<close>

definition astype_float32 :: "ndarray \<Rightarrow> ndarray" where
  "astype_float32 a = a"

definition div_scalar :: "ndarray \<Rightarrow> real \<Rightarrow> ndarray" where
  "div_scalar a c = a\<lparr>elems := map (\<lambda>v. v / c) (elems a)\<rparr>"

text \<open>\<^verbatim>\<open>a[mask] = v\<close>: assignment through a boolean mask.\<close>

definition assign_where :: "bool list \<Rightarrow> 'a \<Rightarrow> 'a list \<Rightarrow> 'a list" where
  "assign_where msk v xs = map2 (\<lambda>b x. if b then v else x) msk xs"

section \<open>The accumulator\<close>

text \<open>
  The fields of \<^verbatim>\<open>Metric\<close> that \<^verbatim>\<open>update\<close> changes. \<^verbatim>\<open>epsilon\<close>, \<^verbatim>\<open>beta\<close> and
  \<^verbatim>\<open>thresholds\<close> are assigned once in \<^verbatim>\<open>__init__\<close> and never again, so they are
  constants here; \<^verbatim>\<open>max_f\<close> is never read or written after \<^verbatim>\<open>__init__\<close> and is left
  out. The entries of \<^verbatim>\<open>precision\<close> and \<^verbatim>\<open>recall\<close> are finite: every value added to
  them is a quotient whose divisor is at least \<^verbatim>\<open>epsilon\<close>.
\<close>

definition epsilon :: real where
  "epsilon = 1 / 10 ^ 4"

definition beta :: real where
  "beta = 3 / 10"

definition thresholds :: nat where
  "thresholds = 256"

record metric =
  mae :: pynum
  precision :: "real list"
  recall :: "real list"
  q :: pynum
  cnt :: nat

definition init :: metric where
  "init = \<lparr>mae = PyInt 0, precision = replicate thresholds 0,
            recall = replicate thresholds 0, q = PyInt 0, cnt = 0\<rparr>"

subsection \<open>Mean absolute error\<close>

definition compute_mae :: "metric \<Rightarrow> ndarray \<Rightarrow> ndarray \<Rightarrow> metric" where
  "compute_mae m pred gt =
     m\<lparr>mae := py_add (mae m)
               (NpFloat (np_mean (map2 (\<lambda>p g. \<bar>p - g\<bar>) (elems pred) (elems gt))))\<rparr>"

subsection \<open>Precision and recall over the thresholds\<close>

text \<open>
  The two binary masks of one threshold, built as the code builds them: an array of
  zeros, then the two masked assignments. \<^verbatim>\<open>pred\<close> is compared with \<open>th\<close> and \<^verbatim>\<open>gt\<close>
  with \<open>th / thresholds\<close>.
\<close>

definition pred_mask :: "nat \<Rightarrow> ndarray \<Rightarrow> int list" where
  "pred_mask th pred =
     (let a = map (\<lambda>_. 0) (elems pred);
          a = assign_where (map (\<lambda>p. real th < p) (elems pred)) 1 a
      in assign_where (map (\<lambda>p. p \<le> real th) (elems pred)) 0 a)"

definition gt_mask :: "nat \<Rightarrow> ndarray \<Rightarrow> ndarray \<Rightarrow> int list" where
  "gt_mask th pred gt =
     (let b = map (\<lambda>_. 0) (elems pred);
          b = assign_where (map (\<lambda>g. real th / real thresholds < g) (elems gt)) 1 b
      in assign_where (map (\<lambda>g. g \<le> real th / real thresholds) (elems gt)) 0 b)"

definition tp_count :: "nat \<Rightarrow> ndarray \<Rightarrow> ndarray \<Rightarrow> int" where
  "tp_count th pred gt = sum_list (map2 (AND) (pred_mask th pred) (gt_mask th pred gt))"

definition pred_count :: "nat \<Rightarrow> ndarray \<Rightarrow> int" where
  "pred_count th pred = sum_list (pred_mask th pred)"

definition gt_count :: "nat \<Rightarrow> ndarray \<Rightarrow> ndarray \<Rightarrow> int" where
  "gt_count th pred gt = sum_list (gt_mask th pred gt)"

definition precision_at :: "nat \<Rightarrow> ndarray \<Rightarrow> ndarray \<Rightarrow> real" where
  "precision_at th pred gt =
     (of_int (tp_count th pred gt) + epsilon) / (of_int (pred_count th pred) + epsilon)"

definition recall_at :: "nat \<Rightarrow> ndarray \<Rightarrow> ndarray \<Rightarrow> real" where
  "recall_at th pred gt =
     (of_int (tp_count th pred gt) + epsilon) / (of_int (gt_count th pred gt) + epsilon)"

text \<open>
  The loop over \<^verbatim>\<open>range(self.thresholds)\<close>. An index outside the vectors would raise
  \<^verbatim>\<open>IndexError\<close> and leave the accumulator as far as the loop got.
\<close>

fun pr_loop :: "metric \<Rightarrow> ndarray \<Rightarrow> ndarray \<Rightarrow> nat list \<Rightarrow> metric \<times> error option" where
  "pr_loop m pred gt [] = (m, None)"
| "pr_loop m pred gt (th # ths) =
     (if th < length (precision m) then
        let m1 = m\<lparr>precision := (precision m)[th := precision m ! th + precision_at th pred gt]\<rparr>
        in if th < length (recall m1) then
             pr_loop (m1\<lparr>recall := (recall m1)[th := recall m1 ! th + recall_at th pred gt]\<rparr>)
               pred gt ths
           else (m1, Some IndexError)
      else (m, Some IndexError))"

definition compute_precision_and_recall ::
    "metric \<Rightarrow> ndarray \<Rightarrow> ndarray \<Rightarrow> metric \<times> error option" where
  "compute_precision_and_recall m pred gt = pr_loop m pred gt [0..<thresholds]"

subsection \<open>S-measure: the object term\<close>

text \<open>
  \<^verbatim>\<open>_object\<close>: the values of \<^verbatim>\<open>pred\<close> where \<^verbatim>\<open>gt == 1\<close>, their mean and standard
  deviation. The early \<^verbatim>\<open>return 0\<close> is a Python integer that the caller multiplies by a
  NumPy scalar at once, so it is given as the number \<open>0\<close>.
\<close>

definition object :: "ndarray \<Rightarrow> ndarray \<Rightarrow> npfloat" where
  "object pred gt =
     (let temp = map fst (filter (\<lambda>(p, g). g = 1) (zip (elems pred) (elems gt)))
      in if length temp = 0 then Fin 0
         else let x = np_mean temp;
                  sigma_x = np_std temp
              in np_div (np_mul (Fin 2) x)
                   (np_add (np_add (np_add (np_mul x x) (Fin 1)) sigma_x) (Fin (1 / 10 ^ 20))))"

definition s_object :: "ndarray \<Rightarrow> ndarray \<Rightarrow> npfloat" where
  "s_object pred gt =
     (let fg = pred\<lparr>elems := map2 (\<lambda>g p. if g = 0 then 0 else p) (elems gt) (elems pred)\<rparr>;
          bg = pred\<lparr>elems := map2 (\<lambda>g p. if g = 1 then 0 else 1 - p) (elems gt) (elems pred)\<rparr>;
          o_fg = object fg gt;
          o_bg = object bg (gt\<lparr>elems := map (\<lambda>g. 1 - g) (elems gt)\<rparr>);
          u = np_mean (elems gt)
      in np_add (np_mul u o_fg) (np_mul (np_sub (Fin 1) u) o_bg))"

subsection \<open>S-measure: the region term\<close>

text \<open>
  \<^verbatim>\<open>_centroid\<close> returns a pair of \<^verbatim>\<open>int64\<close> scalars when the mask has a non-zero sum,
  and a pair of \<open>1 \<times> 1\<close> integer arrays (from \<^verbatim>\<open>np.eye(1)\<close>) when the sum is zero. The
  callers take \<^verbatim>\<open>x[0][0]\<close> of whatever is not an \<^verbatim>\<open>int64\<close> scalar. In the non-zero
  branch the divisor \<^verbatim>\<open>total\<close> is not zero, so the quotient is an ordinary number; it is
  the quotient of two \<^verbatim>\<open>float32\<close> scalars and is rounded to \<^verbatim>\<open>float32\<close> before
  \<^verbatim>\<open>np.round\<close> sees it. The sums themselves are written without rounding: on a mask of
  zeros and ones they are whole numbers, which \<^verbatim>\<open>float32\<close> adds without error as long as
  they stay below \<open>2 ^ 24\<close>.
\<close>

datatype coord = Int64 int | Eye1 int

fun unwrap :: "coord \<Rightarrow> int" where
  "unwrap (Int64 v) = v"
| "unwrap (Eye1 v) = v"

definition elem_at :: "ndarray \<Rightarrow> nat \<Rightarrow> nat \<Rightarrow> real" where
  "elem_at a r c = elems a ! (r * ncols a + c)"

text \<open>\<^verbatim>\<open>a.sum(axis=0)\<close> and \<^verbatim>\<open>a.sum(axis=1)\<close>.\<close>

definition col_sums :: "ndarray \<Rightarrow> real list" where
  "col_sums a = map (\<lambda>c. sum_list (map (\<lambda>r. elem_at a r c) [0..<nrows a])) [0..<ncols a]"

definition row_sums :: "ndarray \<Rightarrow> real list" where
  "row_sums a = map (\<lambda>r. sum_list (map (\<lambda>c. elem_at a r c) [0..<ncols a])) [0..<nrows a]"

definition centroid :: "ndarray \<Rightarrow> coord \<times> coord" where
  "centroid gt =
     (let rows = nrows gt; cols = ncols gt
      in if sum_list (elems gt) = 0 then
           (Eye1 (round_half_even (real cols / 2)), Eye1 (round_half_even (real rows / 2)))
         else
           let total = sum_list (elems gt);
               i = map real [0..<cols];
               j = map real [0..<rows];
               x = round_half_even (fl32 (sum_list (map2 (*) (col_sums gt) i) / total));
               y = round_half_even (fl32 (sum_list (map2 (*) (row_sums gt) j) / total))
           in (Int64 x, Int64 y))"

text \<open>
  Python's slice bounds: a negative bound counts from the end, and every bound is
  clipped to the axis. \<open>slice2 a r0 r1 c0 c1\<close> is \<^verbatim>\<open>a[r0:r1, c0:c1]\<close> for bounds already
  normalised.
\<close>

definition py_index :: "nat \<Rightarrow> int \<Rightarrow> nat" where
  "py_index n i = (if i < 0 then nat (max (i + int n) 0) else min (nat i) n)"

definition slice2 :: "ndarray \<Rightarrow> nat \<Rightarrow> nat \<Rightarrow> nat \<Rightarrow> nat \<Rightarrow> ndarray" where
  "slice2 a r0 r1 c0 c1 =
     \<lparr>nrows = r1 - r0, ncols = c1 - c0,
      elems = concat (map (\<lambda>r. map (\<lambda>c. elem_at a r c) [c0..<c1]) [r0..<r1])\<rparr>"

definition divide_gt ::
    "ndarray \<Rightarrow> coord \<Rightarrow> coord \<Rightarrow>
       ndarray \<times> ndarray \<times> ndarray \<times> ndarray \<times> npfloat \<times> npfloat \<times> npfloat \<times> npfloat" where
  "divide_gt gt x0 y0 =
     (let x = unwrap x0; y = unwrap y0;
          h = nrows gt; w = ncols gt;
          area = h * w;
          lt = slice2 gt 0 (py_index h y) 0 (py_index w x);
          rt = slice2 gt 0 (py_index h y) (py_index w x) w;
          lb = slice2 gt (py_index h y) h 0 (py_index w x);
          rb = slice2 gt (py_index h y) h (py_index w x) w;
          xf = real_of_int x; yf = real_of_int y;
          w1 = np_div (Fin (xf * yf)) (Fin (real area));
          w2 = np_div (Fin ((real w - xf) * yf)) (Fin (real area));
          w3 = np_div (Fin (xf * (real h - yf))) (Fin (real area));
          w4 = np_sub (np_sub (np_sub (Fin 1) w1) w2) w3
      in (lt, rt, lb, rb, w1, w2, w3, w4))"

definition divide_prediction ::
    "ndarray \<Rightarrow> coord \<Rightarrow> coord \<Rightarrow> ndarray \<times> ndarray \<times> ndarray \<times> ndarray" where
  "divide_prediction pred x0 y0 =
     (let x = unwrap x0; y = unwrap y0;
          h = nrows pred; w = ncols pred;
          lt = slice2 pred 0 (py_index h y) 0 (py_index w x);
          rt = slice2 pred 0 (py_index h y) (py_index w x) w;
          lb = slice2 pred (py_index h y) h 0 (py_index w x);
          rb = slice2 pred (py_index h y) h (py_index w x) w
      in (lt, rt, lb, rb))"

text \<open>
  \<^verbatim>\<open>_ssim\<close>. On a quadrant without pixels both means are \<open>NaN\<close>, so is \<^verbatim>\<open>alpha\<close>, the
  test \<^verbatim>\<open>alpha != 0\<close> succeeds and the score is \<open>NaN\<close>. The two quadrants are cut by the
  same bounds from arrays of one shape.
\<close>

definition ssim :: "ndarray \<Rightarrow> ndarray \<Rightarrow> npfloat" where
  "ssim pred gt0 =
     (let gt = astype_float32 gt0;
          h = nrows pred; w = ncols pred;
          n = h * w;
          x = np_mean (elems pred);
          y = np_mean (elems gt);
          dx = map (\<lambda>p. np_sub (Fin p) x) (elems pred);
          dy = map (\<lambda>g. np_sub (Fin g) y) (elems gt);
          dn = Fin (real n - 1 + 1 / 10 ^ 20);
          sigma_x2 = np_div (np_sum (map2 np_mul dx dx)) dn;
          sigma_y2 = np_div (np_sum (map2 np_mul dy dy)) dn;
          sigma_xy = np_div (np_sum (map2 np_mul dx dy)) dn;
          alpha = np_mul (np_mul (np_mul (Fin 4) x) y) sigma_xy;
          beta_l = np_mul (np_add (np_mul x x) (np_mul y y)) (np_add sigma_x2 sigma_y2)
      in if \<not> np_eq alpha (Fin 0) then np_div alpha (np_add beta_l (Fin (1 / 10 ^ 20)))
         else if np_eq alpha (Fin 0) \<and> np_eq beta_l (Fin 0) then Fin 1
         else Fin 0)"

definition s_region :: "ndarray \<Rightarrow> ndarray \<Rightarrow> npfloat" where
  "s_region pred gt =
     (let (x, y) = centroid gt;
          (gt1, gt2, gt3, gt4, w1, w2, w3, w4) = divide_gt gt x y;
          (p1, p2, p3, p4) = divide_prediction pred x y;
          q1 = ssim p1 gt1;
          q2 = ssim p2 gt2;
          q3 = ssim p3 gt3;
          q4 = ssim p4 gt4
      in np_add (np_add (np_add (np_mul w1 q1) (np_mul w2 q2)) (np_mul w3 q3)) (np_mul w4 q4))"

subsection \<open>S-measure\<close>

text \<open>
  The two masked assignments \<^verbatim>\<open>gt[gt >= 0.5] = 1\<close> and \<^verbatim>\<open>gt[gt < 0.5] = 0\<close> write
  into the array that was passed in.
\<close>

definition binarize_half :: "ndarray \<Rightarrow> ndarray" where
  "binarize_half gt =
     (let g1 = assign_where (map (\<lambda>g. 1 / 2 \<le> g) (elems gt)) 1 (elems gt);
          g2 = assign_where (map (\<lambda>g. g < 1 / 2) g1) 0 g1
      in gt\<lparr>elems := g2\<rparr>)"

text \<open>
  The score that \<^verbatim>\<open>compute_s_measure\<close> adds to \<^verbatim>\<open>self.q\<close>, together with the contents
  of its \<^verbatim>\<open>gt\<close> argument when it returns. The clamped score is the Python integer \<open>0\<close>.
\<close>

definition s_measure_score :: "ndarray \<Rightarrow> ndarray \<Rightarrow> pynum \<times> ndarray" where
  "s_measure_score pred gt =
     (let alpha = 1 / 2;
          y = np_mean (elems gt)
      in if np_eq y (Fin 0) then (NpFloat (np_sub (Fin 1) (np_mean (elems pred))), gt)
         else if np_eq y (Fin 1) then (NpFloat (np_mean (elems pred)), gt)
         else
           let gt' = binarize_half gt;
               q0 = np_add (np_mul (Fin alpha) (s_object pred gt'))
                      (np_mul (Fin (1 - alpha)) (s_region pred gt'))
           in (if np_lt q0 (Fin 0) \<or> np_isnan q0 then PyInt 0 else NpFloat q0, gt'))"

definition compute_s_measure :: "metric \<Rightarrow> ndarray \<Rightarrow> ndarray \<Rightarrow> metric \<times> ndarray" where
  "compute_s_measure m pred gt =
     (let (sc, gt') = s_measure_score pred gt in (m\<lparr>q := py_add (q m) sc\<rparr>, gt'))"

subsection \<open>One image pair\<close>

text \<open>
  \<^verbatim>\<open>update\<close> returns the accumulator as the call leaves it, and the exception if one
  was raised. The \<^verbatim>\<open>assert\<close> on the shapes is the first statement.
\<close>

definition update :: "metric \<Rightarrow> ndarray \<Rightarrow> ndarray \<Rightarrow> metric \<times> error option" where
  "update m pred0 gt0 =
     (if shape pred0 \<noteq> shape gt0 then (m, Some AssertionError)
      else
        let pred = astype_float32 pred0;
            gt = astype_float32 gt0;
            norm_pred = div_scalar pred 255;
            norm_gt = div_scalar gt 255;
            m1 = compute_mae m norm_pred norm_gt
        in case compute_precision_and_recall m1 pred gt of
             (m2, Some e) \<Rightarrow> (m2, Some e)
           | (m2, None) \<Rightarrow>
               let (m3, _) = compute_s_measure m2 norm_pred norm_gt
               in (m3\<lparr>cnt := cnt m3 + 1\<rparr>, None))"

text \<open>A run over a sequence of image pairs stops at the first exception.\<close>

fun run :: "metric \<Rightarrow> (ndarray \<times> ndarray) list \<Rightarrow> metric \<times> error option" where
  "run m [] = (m, None)"
| "run m ((pred, gt) # ps) =
     (case update m pred gt of
        (m', Some e) \<Rightarrow> (m', Some e)
      | (m', None) \<Rightarrow> run m' ps)"

subsection \<open>The report\<close>

text \<open>
  \<^verbatim>\<open>np.argmax\<close>, as NumPy's loop runs: the first \<open>NaN\<close> wins, otherwise the first
  largest entry; an empty array raises \<^verbatim>\<open>ValueError\<close>.
\<close>

fun argmax_loop :: "npfloat list \<Rightarrow> nat \<Rightarrow> npfloat \<Rightarrow> nat \<Rightarrow> nat" where
  "argmax_loop [] i mp max_ind = max_ind"
| "argmax_loop (v # vs) i mp max_ind =
     (if np_isnan mp then max_ind
      else if \<not> np_le v mp then argmax_loop vs (Suc i) v i
      else argmax_loop vs (Suc i) mp max_ind)"

definition np_argmax :: "npfloat list \<Rightarrow> error + nat" where
  "np_argmax xs = (case xs of [] \<Rightarrow> Inl ValueError | v # vs \<Rightarrow> Inr (argmax_loop vs 1 v 0))"

definition f_measure :: "metric \<Rightarrow> npfloat list" where
  "f_measure m =
     map2 (\<lambda>p r. np_div (Fin ((1 + beta) * (p * r))) (Fin (beta * p + r)))
       (precision m) (recall m)"

text \<open>
  \<^verbatim>\<open>print_result\<close> prints five lines, one after the other; the model returns the lines
  printed (label and value) and the exception that stopped it, if any. The first
  three values are NumPy scalars divided by \<^verbatim>\<open>self.cnt\<close>; the last two divide the running
  scalars \<^verbatim>\<open>self.mae\<close> and \<^verbatim>\<open>self.q\<close>.
\<close>

definition print_result :: "metric \<Rightarrow> (string \<times> npfloat) list \<times> error option" where
  "print_result m =
     (let fm = f_measure m
      in case np_argmax fm of
           Inl e \<Rightarrow> ([], Some e)
         | Inr argmax \<Rightarrow>
             let l1 = (''Max F-measure:'', np_div (fm ! argmax) (Fin (real (cnt m))));
                 l2 = (''Precision:    '', np_div (Fin (precision m ! argmax)) (Fin (real (cnt m))));
                 l3 = (''Recall:       '', np_div (Fin (recall m ! argmax)) (Fin (real (cnt m))))
             in (case py_truediv (mae m) (cnt m) of
                   Inl e \<Rightarrow> ([l1, l2, l3], Some e)
                 | Inr v \<Rightarrow>
                     (case py_truediv (q m) (cnt m) of
                        Inl e \<Rightarrow> ([l1, l2, l3, (''MAE:          '', v)], Some e)
                      | Inr s \<Rightarrow>
                          ([l1, l2, l3, (''MAE:          '', v), (''S-measure:    '', s)], None))))"

subsection \<open>Arrays as objects\<close>

text \<open>
  Python passes arrays by reference, and \<^verbatim>\<open>compute_s_measure\<close> writes into the array
  it is given. To say which array that is, this variant of \<^verbatim>\<open>update\<close> runs on a store
  of arrays: \<^verbatim>\<open>astype\<close> and the division by \<open>255\<close> allocate new arrays, the arithmetic
  reads the arrays at the addresses it is handed, and the masked assignments to \<^verbatim>\<open>gt\<close>
  go to the address of that argument.
\<close>

type_synonym addr = nat

record heap =
  cells :: "addr \<Rightarrow> ndarray"
  next_free :: addr

definition alloc :: "heap \<Rightarrow> ndarray \<Rightarrow> addr \<times> heap" where
  "alloc h a = (next_free h, h\<lparr>cells := (cells h)(next_free h := a), next_free := Suc (next_free h)\<rparr>)"

definition compute_s_measure_heap :: "metric \<Rightarrow> addr \<Rightarrow> addr \<Rightarrow> heap \<Rightarrow> metric \<times> heap" where
  "compute_s_measure_heap m pred gt h =
     (let (m', gt') = compute_s_measure m (cells h pred) (cells h gt)
      in (m', h\<lparr>cells := (cells h)(gt := gt')\<rparr>))"

definition update_heap ::
    "metric \<Rightarrow> addr \<Rightarrow> addr \<Rightarrow> heap \<Rightarrow> (metric \<times> error option) \<times> heap" where
  "update_heap m pred0 gt0 h =
     (if shape (cells h pred0) \<noteq> shape (cells h gt0) then ((m, Some AssertionError), h)
      else
        let (pred, h1) = alloc h (astype_float32 (cells h pred0));
            (gt, h2) = alloc h1 (astype_float32 (cells h1 gt0));
            (norm_pred, h3) = alloc h2 (div_scalar (cells h2 pred) 255);
            (norm_gt, h4) = alloc h3 (div_scalar (cells h3 gt) 255);
            m1 = compute_mae m (cells h4 norm_pred) (cells h4 norm_gt)
        in case compute_precision_and_recall m1 (cells h4 pred) (cells h4 gt) of
             (m2, Some e) \<Rightarrow> ((m2, Some e), h4)
           | (m2, None) \<Rightarrow>
               let (m3, h5) = compute_s_measure_heap m2 norm_pred norm_gt h4
               in ((m3\<lparr>cnt := cnt m3 + 1\<rparr>, None), h5))"

section \<open>What the specification says\<close>

text \<open>
  The definitions of this section follow the words of the specification, and state the
  conditions under which its sentences are read; the theorems compare them with the
  code above.
\<close>

text \<open>Well-formed accumulators: both vectors have one entry per threshold.\<close>

definition wf_metric :: "metric \<Rightarrow> bool" where
  "wf_metric m \<longleftrightarrow> length (precision m) = thresholds \<and> length (recall m) = thresholds"

text \<open>
  A valid image pair: two arrays of one shape with at least one pixel, all values
  between \<open>0\<close> and \<open>255\<close>.
\<close>

definition valid_pair :: "ndarray \<Rightarrow> ndarray \<Rightarrow> bool" where
  "valid_pair pred gt \<longleftrightarrow>
     wf_array pred \<and> wf_array gt \<and> shape pred = shape gt \<and> 0 < nrows pred \<and> 0 < ncols pred \<and>
     (\<forall>v \<in> set (elems pred). 0 \<le> v \<and> v \<le> 255) \<and> (\<forall>v \<in> set (elems gt). 0 \<le> v \<and> v \<le> 255)"




text \<open>The merge of section 5: corresponding fields are added.\<close>

definition merge :: "metric \<Rightarrow> metric \<Rightarrow> metric" where
  "merge a b =
     \<lparr>mae = py_add (mae a) (mae b),
      precision = map2 (+) (precision a) (precision b),
      recall = map2 (+) (recall a) (recall b),
      q = py_add (q a) (q b),
      cnt = cnt a + cnt b\<rparr>"


text \<open>
  The ground-truth count of section 3: the pixels whose normalised value is above
  \<open>th / T\<close>.
\<close>

definition gt_count_normalized :: "nat \<Rightarrow> ndarray \<Rightarrow> int" where
  "gt_count_normalized th gt =
     int (length (filter (\<lambda>g. real th / real thresholds < g / 255) (elems gt)))"

text \<open>
  The recall of one image under that reading: the true positives and the ground-truth
  count taken over the normalised values.
\<close>

definition tp_count_normalized :: "nat \<Rightarrow> ndarray \<Rightarrow> ndarray \<Rightarrow> int" where
  "tp_count_normalized th pred gt =
     int (length (filter (\<lambda>(p, g). real th < p \<and> real th / real thresholds < g / 255)
                    (zip (elems pred) (elems gt))))"

definition recall_normalized :: "nat \<Rightarrow> ndarray \<Rightarrow> ndarray \<Rightarrow> real" where
  "recall_normalized th pred gt =
     (of_int (tp_count_normalized th pred gt) + epsilon) /
     (of_int (gt_count_normalized th gt) + epsilon)"

section \<open>Auxiliary definitions\<close>

text \<open>
  Notions of the proofs and the inputs of the worked examples; none of them is part of
  the program.
\<close>

text \<open>The images of the concrete scenarios.\<close>

definition const_image :: "nat \<Rightarrow> nat \<Rightarrow> real \<Rightarrow> ndarray" where
  "const_image h w v = \<lparr>nrows = h, ncols = w, elems = replicate (h * w) v\<rparr>"

text \<open>
  What one image pair adds to the accumulator: the vectors of the sweep, the mean
  absolute error and the S-measure score of the normalised arrays, and one image.
\<close>

definition precision_vec :: "ndarray \<Rightarrow> ndarray \<Rightarrow> real list" where
  "precision_vec pred gt = map (\<lambda>th. precision_at th pred gt) [0..<thresholds]"

definition recall_vec :: "ndarray \<Rightarrow> ndarray \<Rightarrow> real list" where
  "recall_vec pred gt = map (\<lambda>th. recall_at th pred gt) [0..<thresholds]"

definition contribution :: "ndarray \<Rightarrow> ndarray \<Rightarrow> metric" where
  "contribution pred gt =
     \<lparr>mae = NpFloat (np_mean (map2 (\<lambda>p g. \<bar>p - g\<bar>) (elems (div_scalar pred 255)) (elems (div_scalar gt 255)))),
      precision = precision_vec pred gt,
      recall = recall_vec pred gt,
      q = fst (s_measure_score (div_scalar pred 255) (div_scalar gt 255)),
      cnt = 1\<rparr>"

text \<open>
  A caller's store for the frame property: two arrays of two pixels at the addresses
  \<open>0\<close> and \<open>1\<close>, whose normalised ground truth is neither all zero nor all one.
\<close>

definition two_px :: ndarray where
  "two_px = \<lparr>nrows = 1, ncols = 2, elems = [255, 102]\<rparr>"

definition caller_heap :: heap where
  "caller_heap = \<lparr>cells = (\<lambda>_. const_image 0 0 0)(0 := two_px, 1 := two_px), next_free = 2\<rparr>"




text \<open>
  An image pair whose ground truth has all its weight in the first row and column: the
  centroid is \<open>(0, 0)\<close> and three quadrants are empty.
\<close>

definition left_px :: ndarray where
  "left_px = \<lparr>nrows = 1, ncols = 2, elems = [255, 0]\<rparr>"

text \<open>A value that is a finite number or \<open>NaN\<close>.\<close>

definition no_inf :: "npfloat \<Rightarrow> bool" where
  "no_inf x \<longleftrightarrow> x \<noteq> PInf \<and> x \<noteq> NInf"

text \<open>The F-measure that \<^verbatim>\<open>print_result\<close> computes from the sums, as a number.\<close>

definition f_raw :: "metric \<Rightarrow> nat \<Rightarrow> real" where
  "f_raw m th =
     (1 + beta) * (precision m ! th * recall m ! th) / (beta * precision m ! th + recall m ! th)"

section \<open>Basic facts\<close>

subsection \<open>Addition of running scalars\<close>



lemma np_add_zero [simp]: "np_add (Fin 0) a = a" "np_add a (Fin 0) = a"
  by (cases a; simp)+

lemma py_val_add: "py_val (py_add a b) = np_add (py_val a) (py_val b)"
  by (cases a; cases b) simp_all



lemma py_add_zero [simp]: "py_add (PyInt 0) a = a"
  by (cases a) simp_all

subsection \<open>The sweep and one update\<close>

lemma pr_loop_fold:
  "\<forall>th \<in> set ths. th < length (precision m) \<and> th < length (recall m) \<Longrightarrow>
   pr_loop m pred gt ths =
     (m\<lparr>precision := foldl (\<lambda>xs th. xs[th := xs ! th + precision_at th pred gt]) (precision m) ths,
        recall := foldl (\<lambda>xs th. xs[th := xs ! th + recall_at th pred gt]) (recall m) ths\<rparr>, None)"
proof (induction ths arbitrary: m)
  case Nil
  show ?case by simp
next
  case (Cons th ths)
  let ?m1 = "m\<lparr>precision := (precision m)[th := precision m ! th + precision_at th pred gt]\<rparr>"
  let ?m2 = "?m1\<lparr>recall := (recall ?m1)[th := recall ?m1 ! th + recall_at th pred gt]\<rparr>"
  have bounds: "\<forall>t \<in> set ths. t < length (precision ?m2) \<and> t < length (recall ?m2)"
    using Cons.prems by simp
  have "pr_loop m pred gt (th # ths) = pr_loop ?m2 pred gt ths"
    using Cons.prems by (simp add: Let_def)
  also have "\<dots> = (?m2\<lparr>precision := foldl (\<lambda>xs th. xs[th := xs ! th + precision_at th pred gt]) (precision ?m2) ths,
        recall := foldl (\<lambda>xs th. xs[th := xs ! th + recall_at th pred gt]) (recall ?m2) ths\<rparr>, None)"
    by (rule Cons.IH [OF bounds])
  finally show ?case by simp
qed

lemma foldl_update_upt:
  "k \<le> length xs \<Longrightarrow>
   foldl (\<lambda>ys i. ys[i := ys ! i + f i]) xs [0..<k] =
     map (\<lambda>i. if i < k then xs ! i + f i else xs ! i) [0..<length xs]"
proof (induction k)
  case 0
  show ?case by (simp add: map_nth)
next
  case (Suc k)
  let ?g = "\<lambda>i. if i < k then xs ! i + f i else xs ! i"
  let ?h = "\<lambda>i. if i < Suc k then xs ! i + f i else xs ! i"
  have k: "k < length xs" using Suc.prems by simp
  have IH: "foldl (\<lambda>ys i. ys[i := ys ! i + f i]) xs [0..<k] = map ?g [0..<length xs]"
    using Suc by simp
  have "foldl (\<lambda>ys i. ys[i := ys ! i + f i]) xs [0..<Suc k] =
          (map ?g [0..<length xs])[k := map ?g [0..<length xs] ! k + f k]"
    by (simp only: upt_Suc_append [OF le0] foldl_append foldl.simps IH)
  also have "\<dots> = map ?h [0..<length xs]"
  proof (rule nth_equalityI)
    show "length ((map ?g [0..<length xs])[k := map ?g [0..<length xs] ! k + f k]) =
          length (map ?h [0..<length xs])" by simp
  next
    fix i
    assume "i < length ((map ?g [0..<length xs])[k := map ?g [0..<length xs] ! k + f k])"
    then have i: "i < length xs" by simp
    show "(map ?g [0..<length xs])[k := map ?g [0..<length xs] ! k + f k] ! i =
          map ?h [0..<length xs] ! i"
    proof (cases "i = k")
      case True
      then show ?thesis using k by simp
    next
      case False
      then show ?thesis using i k by (simp add: nth_list_update) 
    qed
  qed
  finally show ?case .
qed

lemma foldl_update_all:
  "foldl (\<lambda>ys i. ys[i := ys ! i + f i]) xs [0..<length xs] = map2 (+) xs (map f [0..<length xs])"
proof -
  have "foldl (\<lambda>ys i. ys[i := ys ! i + f i]) xs [0..<length xs] =
          map (\<lambda>i. if i < length xs then xs ! i + f i else xs ! i) [0..<length xs]"
    by (rule foldl_update_upt) simp
  also have "\<dots> = map2 (+) xs (map f [0..<length xs])"
    by (rule nth_equalityI) simp_all
  finally show ?thesis .
qed

lemma compute_precision_and_recall_eq:
  assumes "wf_metric m"
  shows "compute_precision_and_recall m pred gt =
           (m\<lparr>precision := map2 (+) (precision m) (precision_vec pred gt),
              recall := map2 (+) (recall m) (recall_vec pred gt)\<rparr>, None)"
proof -
  have len: "length (precision m) = thresholds" "length (recall m) = thresholds"
    using assms by (simp_all add: wf_metric_def)
  have "compute_precision_and_recall m pred gt =
     (m\<lparr>precision := foldl (\<lambda>xs th. xs[th := xs ! th + precision_at th pred gt]) (precision m) [0..<thresholds],
        recall := foldl (\<lambda>xs th. xs[th := xs ! th + recall_at th pred gt]) (recall m) [0..<thresholds]\<rparr>, None)"
    unfolding compute_precision_and_recall_def by (rule pr_loop_fold) (simp add: len)
  moreover have "foldl (\<lambda>xs th. xs[th := xs ! th + precision_at th pred gt]) (precision m) [0..<thresholds]
      = map2 (+) (precision m) (precision_vec pred gt)"
    using foldl_update_all [of "\<lambda>th. precision_at th pred gt" "precision m"] by (simp add: len precision_vec_def)
  moreover have "foldl (\<lambda>xs th. xs[th := xs ! th + recall_at th pred gt]) (recall m) [0..<thresholds]
      = map2 (+) (recall m) (recall_vec pred gt)"
    using foldl_update_all [of "\<lambda>th. recall_at th pred gt" "recall m"] by (simp add: len recall_vec_def)
  ultimately show ?thesis by simp
qed

lemma update_eq:
  assumes "wf_metric m" and "shape pred = shape gt"
  shows "update m pred gt = (merge m (contribution pred gt), None)"
proof -
  have wf1: "wf_metric (compute_mae m (div_scalar pred 255) (div_scalar gt 255))"
    using assms(1) by (simp add: wf_metric_def compute_mae_def)
  note cpr = compute_precision_and_recall_eq [OF wf1]
  have "update m pred gt =
     (let (m3, _) = compute_s_measure
         ((compute_mae m (div_scalar pred 255) (div_scalar gt 255))
            \<lparr>precision := map2 (+) (precision (compute_mae m (div_scalar pred 255) (div_scalar gt 255))) (precision_vec pred gt),
             recall := map2 (+) (recall (compute_mae m (div_scalar pred 255) (div_scalar gt 255))) (recall_vec pred gt)\<rparr>)
         (div_scalar pred 255) (div_scalar gt 255)
      in (m3\<lparr>cnt := cnt m3 + 1\<rparr>, None))"
    unfolding update_def astype_float32_def Let_def cpr using assms(2) by simp
  also have "\<dots> = (merge m (contribution pred gt), None)"
    by (simp add: compute_s_measure_def merge_def contribution_def compute_mae_def split_def Let_def)
  finally show ?thesis .
qed

lemma wf_metric_merge_contribution:
  "wf_metric m \<Longrightarrow> wf_metric (merge m (contribution pred gt))"
  by (simp add: wf_metric_def merge_def contribution_def precision_vec_def recall_vec_def)


section \<open>Rounding to floating point\<close>

lemma two_powr_int: "(2::real) powr real_of_int k = 2 powi k"
  by (simp add: powr_real_of_int')

lemma two_powr_int_Suc: "(2::real) powr (real_of_int k + 1) = 2 powi (k + 1)"
proof -
  have "real_of_int k + 1 = real_of_int (k + 1)" by simp
  then show ?thesis by (simp only: two_powr_int)
qed

lemma expo_eqI:
  assumes "2 powi k \<le> \<bar>x\<bar>" and "\<bar>x\<bar> < 2 powi (k + 1)"
  shows "expo x = k"
proof -
  have "(0::real) < 2 powi k" by simp
  then have pos: "0 < \<bar>x\<bar>" using assms(1) by linarith
  have "(2::real) powr real_of_int k \<le> \<bar>x\<bar> \<and> \<bar>x\<bar> < 2 powr (real_of_int k + 1)"
    using assms by (simp only: two_powr_int two_powr_int_Suc)
  then show ?thesis
    unfolding expo_def using floor_log_eq_powr_iff [OF pos, of 2 k] by simp
qed

lemma expo_bounds:
  assumes "x \<noteq> 0"
  shows "2 powi expo x \<le> \<bar>x\<bar>" and "\<bar>x\<bar> < 2 powi (expo x + 1)"
proof -
  have pos: "0 < \<bar>x\<bar>" using assms by simp
  have "(2::real) powr real_of_int (expo x) \<le> \<bar>x\<bar> \<and> \<bar>x\<bar> < 2 powr (real_of_int (expo x) + 1)"
    using floor_log_eq_powr_iff [OF pos, of 2 "expo x"] by (simp add: expo_def)
  then show "2 powi expo x \<le> \<bar>x\<bar>" and "\<bar>x\<bar> < 2 powi (expo x + 1)"
    by (simp_all only: two_powr_int two_powr_int_Suc)
qed

lemma round_half_even_of_int [simp]: "round_half_even (of_int n) = n"
  by (simp add: round_half_even_def)

lemma round_to_exact: "round_to e (of_int n * 2 powi e) = of_int n * 2 powi e"
  by (simp add: round_to_def)

lemma fl_zero [simp]: "fl p emin 0 = 0"
  by (simp add: fl_def)

lemma fl_at:
  assumes "2 powi k \<le> \<bar>x\<bar>" and "\<bar>x\<bar> < 2 powi (k + 1)"
  shows "fl p emin x = round_to (max (k - int p + 1) emin) x"
proof -
  have "(0::real) < 2 powi k" by simp
  with assms(1) have "0 < \<bar>x\<bar>" by linarith
  then have "x \<noteq> 0" by simp
  then show ?thesis
    by (simp add: fl_def expo_eqI [OF assms])
qed


lemma round_half_even_bounds:
  assumes "of_int a \<le> r" and "r \<le> of_int b"
  shows "a \<le> round_half_even r \<and> round_half_even r \<le> b"
proof -
  have lo: "a \<le> \<lfloor>r\<rfloor>" using assms(1) by (simp add: le_floor_iff)
  have hi: "\<lfloor>r\<rfloor> \<le> b" using assms(2) by (simp add: floor_le_iff)
  show ?thesis
  proof (cases "r - of_int \<lfloor>r\<rfloor> < 1 / 2")
    case True
    then show ?thesis using lo hi by (simp add: round_half_even_def Let_def)
  next
    case False
    then have "of_int \<lfloor>r\<rfloor> < r" by linarith
    then have "of_int \<lfloor>r\<rfloor> < (of_int b :: real)" using assms(2) by linarith
    then have "\<lfloor>r\<rfloor> < b" by simp
    then have "\<lfloor>r\<rfloor> + 1 \<le> b" by simp
    moreover have "round_half_even r = \<lfloor>r\<rfloor> \<or> round_half_even r = \<lfloor>r\<rfloor> + 1"
      by (simp add: round_half_even_def Let_def)
    ultimately show ?thesis using lo hi by auto
  qed
qed

lemma two_powi_less_cancel: "(2::real) powi a < 2 powi b \<Longrightarrow> a < b"
proof (rule ccontr)
  assume l: "(2::real) powi a < 2 powi b" and "\<not> a < b"
  then have "b \<le> a" by simp
  then have "(2::real) powi b \<le> 2 powi a" by (intro power_int_increasing) simp_all
  with l show False by simp
qed

lemma expo_le:
  assumes "y \<noteq> 0" and "\<bar>y\<bar> < 2 powi (j + 1)"
  shows "expo y \<le> j"
proof -
  have "2 powi expo y < (2::real) powi (j + 1)"
    using expo_bounds(1) [OF assms(1)] assms(2) by linarith
  then have "expo y < j + 1" by (rule two_powi_less_cancel)
  then show ?thesis by simp
qed

lemma two_powi_diff_int:
  assumes "e \<le> e0"
  shows "(2::real) powi e0 / 2 powi e = of_int (2 ^ nat (e0 - e))"
proof -
  have "(2::real) powi e0 / 2 powi e = 2 powi (e0 - e)"
    by (simp add: power_int_diff)
  also have "\<dots> = 2 ^ nat (e0 - e)"
    using assms by (simp add: power_int_def)
  finally show ?thesis by simp
qed

lemma round_to_multiple:
  assumes "e \<le> e0"
  shows "round_to e (of_int m * 2 powi e0) = of_int m * 2 powi e0"
proof -
  have "of_int m * 2 powi e0 / 2 powi e = of_int m * ((2::real) powi e0 / 2 powi e)"
    by simp
  also have "\<dots> = of_int (m * 2 ^ nat (e0 - e))"
    by (simp add: two_powi_diff_int [OF assms])
  finally have q: "of_int m * 2 powi e0 / 2 powi e = real_of_int (m * 2 ^ nat (e0 - e))" .
  have "round_to e (of_int m * 2 powi e0) = of_int (m * 2 ^ nat (e0 - e)) * 2 powi e"
    unfolding round_to_def q round_half_even_of_int ..
  also have "\<dots> = of_int m * ((2::real) powi e0 / 2 powi e) * 2 powi e"
    by (simp add: two_powi_diff_int [OF assms])
  also have "\<dots> = of_int m * 2 powi e0"
    by simp
  finally show ?thesis .
qed

lemma round_half_even_small:
  assumes "\<bar>r\<bar> < 1 / 2"
  shows "round_half_even r = 0"
proof (cases "0 \<le> r")
  case True
  then have "\<lfloor>r\<rfloor> = 0" using assms by (simp add: floor_eq_iff)
  then show ?thesis using assms True by (simp add: round_half_even_def)
next
  case False
  then have "\<lfloor>r\<rfloor> = - 1" using assms by (simp add: floor_eq_iff)
  then show ?thesis using assms False by (simp add: round_half_even_def)
qed

lemma fl_idem:
  assumes "0 < p"
  shows "fl p emin (fl p emin x) = fl p emin x"
proof (cases "x = 0")
  case True
  then show ?thesis by simp
next
  case False
  define k where "k = expo x"
  define e where "e = max (k - int p + 1) emin"
  define n where "n = round_half_even (x / 2 powi e)"
  define y where "y = of_int n * (2::real) powi e"
  have y: "fl p emin x = y"
    using False by (simp add: fl_def round_to_def y_def n_def e_def k_def)
  show ?thesis
  proof (cases "y = 0")
    case True
    then show ?thesis by (simp add: y)
  next
    case y0: False
    have xb: "\<bar>x\<bar> < 2 powi (k + 1)"
      unfolding k_def by (rule expo_bounds(2) [OF False])
    have ek: "e \<le> k + 1"
    proof (rule ccontr)
      assume "\<not> e \<le> k + 1"
      then have "k + 1 \<le> e - 1" by simp
      then have "(2::real) powi (k + 1) \<le> 2 powi (e - 1)"
        by (intro power_int_increasing) simp_all
      then have "\<bar>x\<bar> < 2 powi (e - 1)" using xb by linarith
      then have "\<bar>x\<bar> / 2 powi e < 2 powi (e - 1) / 2 powi e"
        by (simp add: divide_strict_right_mono)
      also have "(2::real) powi (e - 1) / 2 powi e = 1 / 2"
        by (simp add: power_int_diff)
      finally have "\<bar>x / 2 powi e\<bar> < 1 / 2" by simp
      then have "n = 0"
        unfolding n_def by (rule round_half_even_small)
      then show False using y0 by (simp add: y_def)
    qed
    define w where "w = nat (k + 1 - e)"
    have w: "int w = k + 1 - e" using ek by (simp add: w_def)
    have pw: "(2::real) powi (k + 1) = 2 ^ w * 2 powi e"
    proof -
      have "(2::real) powi (k + 1) = 2 powi (int w + e)" using w by simp
      also have "\<dots> = 2 powi int w * 2 powi e" by (simp add: power_int_add)
      finally show ?thesis by simp
    qed
    have "\<bar>x / 2 powi e\<bar> \<le> 2 ^ w"
    proof -
      have "\<bar>x\<bar> \<le> 2 ^ w * 2 powi e" using xb pw by simp
      then have "\<bar>x\<bar> / 2 powi e \<le> 2 ^ w"
        by (simp add: divide_le_eq)
      then show ?thesis by simp
    qed
    then have "- (2 ^ w) \<le> x / 2 powi e \<and> x / 2 powi e \<le> 2 ^ w"
      unfolding abs_le_iff by linarith
    then have "of_int (- (2 ^ w)) \<le> x / 2 powi e" "x / 2 powi e \<le> of_int (2 ^ w)"
      by simp_all
    then have nb: "- (2 ^ w) \<le> n" "n \<le> 2 ^ w"
      using round_half_even_bounds [of "- (2 ^ w)" "x / 2 powi e" "2 ^ w"] by (simp_all add: n_def)
    define e' where "e' = max (expo y - int p + 1) emin"
    have fy: "fl p emin y = round_to e' y"
      using y0 by (simp add: fl_def e'_def)
    show ?thesis
    proof (cases "\<bar>n\<bar> = 2 ^ w")
      case True
      then have "real_of_int \<bar>n\<bar> = real_of_int (2 ^ w)" by (simp only:)
      then have rn: "\<bar>real_of_int n\<bar> = 2 ^ w" by simp
      then have ay: "\<bar>y\<bar> = 2 powi (k + 1)"
        by (simp add: y_def pw abs_mult)
      have "expo y = k + 1"
        by (rule expo_eqI) (simp_all add: ay power_int_add)
      then have e'le: "e' \<le> k + 1"
        using assms ek by (simp add: e'_def e_def)
      have "y = of_int (sgn n) * 2 powi (k + 1)"
      proof -
        have "n = sgn n * 2 ^ w"
          using True mult_sgn_abs [of n] by simp
        then have "real_of_int n = real_of_int (sgn n * 2 ^ w)" by (simp only:)
        then have "of_int n = of_int (sgn n) * (2::real) ^ w" by simp
        then show ?thesis by (simp add: y_def pw)
      qed
      then show ?thesis
        unfolding y fy using round_to_multiple [OF e'le, of "sgn n"] by simp
    next
      case False
      then have "\<bar>n\<bar> < 2 ^ w" using nb by linarith
      then have "real_of_int \<bar>n\<bar> < real_of_int (2 ^ w)" by (simp only: of_int_less_iff)
      then have "\<bar>real_of_int n\<bar> < 2 ^ w" by simp
      then have "\<bar>y\<bar> < 2 powi (k + 1)"
        by (simp add: y_def pw abs_mult)
      then have "expo y \<le> k" using y0 by (intro expo_le)
      then have "e' \<le> e" by (simp add: e'_def e_def)
      then show ?thesis
        unfolding y fy unfolding y_def by (rule round_to_multiple)
    qed
  qed
qed


lemma fl64_at:
  assumes "2 powi k \<le> \<bar>x\<bar>" and "\<bar>x\<bar> < 2 powi (k + 1)" and "- 1022 \<le> k"
  shows "fl64 x = round_to (k - 52) x"
proof -
  have "max (k - int 53 + 1) (- 1074) = k - 52" using assms(3) by simp
  then show ?thesis by (simp add: fl64_def fl_at [OF assms(1,2)])
qed


lemma fl64_zero [simp]: "fl64 0 = 0"
  by (simp add: fl64_def)

lemma fl32_zero [simp]: "fl32 0 = 0"
  by (simp add: fl32_def)

lemma fl64_idem [simp]: "fl64 (fl64 x) = fl64 x"
  by (simp add: fl64_def fl_idem)

section \<open>The shape check\<close>

lemma pr_loop_error: "snd (pr_loop m pred gt ths) = Some e \<Longrightarrow> e = IndexError"
  by (induction ths arbitrary: m) (auto simp: Let_def split: if_splits)

lemma update_error:
  assumes "shape pred = shape gt" and "snd (update m pred gt) = Some e"
  shows "e = IndexError"
proof -
  let ?m1 = "compute_mae m (div_scalar pred 255) (div_scalar gt 255)"
  obtain m2 r where c: "compute_precision_and_recall ?m1 pred gt = (m2, r)"
    by (cases "compute_precision_and_recall ?m1 pred gt")
  have "r = Some e"
    using assms unfolding update_def astype_float32_def Let_def c
    by (cases r) (simp_all add: split_def)
  then have "snd (pr_loop ?m1 pred gt [0..<thresholds]) = Some e"
    using c by (simp add: compute_precision_and_recall_def)
  then show ?thesis by (rule pr_loop_error)
qed

text \<open>
  Claim C7. When the shapes of \<^verbatim>\<open>pred\<close> and \<^verbatim>\<open>gt\<close> differ, \<^verbatim>\<open>update\<close> raises
  \<^verbatim>\<open>AssertionError\<close> and leaves the accumulator exactly as it was: no field has been
  touched. When the shapes agree, no \<^verbatim>\<open>AssertionError\<close> is raised; on an accumulator
  with its \<open>256\<close>-entry vectors nothing at all is raised and \<^verbatim>\<open>cnt\<close> grows by one.
\<close>

theorem update_shape_check:
  "(shape pred \<noteq> shape gt \<longrightarrow> update m pred gt = (m, Some AssertionError)) \<and>
   (shape pred = shape gt \<longrightarrow> snd (update m pred gt) \<noteq> Some AssertionError) \<and>
   (shape pred = shape gt \<and> wf_metric m \<longrightarrow>
      snd (update m pred gt) = None \<and> cnt (fst (update m pred gt)) = cnt m + 1)"
proof (intro conjI impI)
  assume "shape pred \<noteq> shape gt"
  then show "update m pred gt = (m, Some AssertionError)"
    by (simp add: update_def)
next
  assume "shape pred = shape gt"
  then show "snd (update m pred gt) \<noteq> Some AssertionError"
    using update_error [of pred gt m AssertionError] by auto
next
  assume a: "shape pred = shape gt \<and> wf_metric m"
  then have eq: "update m pred gt = (merge m (contribution pred gt), None)"
    by (simp add: update_eq)
  show "snd (update m pred gt) = None"
    by (simp add: eq)
  show "cnt (fst (update m pred gt)) = cnt m + 1"
    by (simp add: eq merge_def contribution_def)
qed

theorem update_shape_check_witness:
  "shape (const_image 1 1 0) \<noteq> shape (const_image 2 2 0) \<and>
   update init (const_image 1 1 0) (const_image 2 2 0) = (init, Some AssertionError) \<and>
   shape (const_image 2 2 0) = shape (const_image 2 2 0) \<and> wf_metric init \<and>
   snd (update init (const_image 2 2 0) (const_image 2 2 0)) = None \<and>
   cnt (fst (update init (const_image 2 2 0) (const_image 2 2 0))) = 1"
proof -
  have d: "shape (const_image 1 1 0) \<noteq> shape (const_image 2 2 0)"
    by (simp add: shape_def const_image_def)
  have w: "wf_metric init"
    by (simp add: wf_metric_def init_def)
  have c: "cnt init = 0"
    by (simp add: init_def)
  show ?thesis
    using d w c update_shape_check [of "const_image 1 1 0" "const_image 2 2 0" init]
      update_shape_check [of "const_image 2 2 0" "const_image 2 2 0" init]
    by simp
qed

section \<open>Merging accumulators\<close>



lemma map2_add_zeros: "length xs = n \<Longrightarrow> map2 (+) (replicate n 0) xs = (xs :: real list)"
  by (rule nth_equalityI) simp_all



lemma merge_init: "wf_metric a \<Longrightarrow> merge init a = a"
  by (simp add: merge_def init_def wf_metric_def map2_add_zeros)

lemma wf_metric_init: "wf_metric init"
  by (simp add: wf_metric_def init_def)

lemma wf_metric_contribution: "wf_metric (contribution pred gt)"
  by (simp add: wf_metric_def contribution_def precision_vec_def recall_vec_def)

lemma wf_metric_merge: "wf_metric a \<Longrightarrow> wf_metric b \<Longrightarrow> wf_metric (merge a b)"
  by (simp add: wf_metric_def merge_def)





section \<open>The masks of the sweep\<close>

lemma two_assignments:
  assumes "length xs = length ys"
  shows "assign_where (map (\<lambda>x. \<not> P x) xs) (0::int) (assign_where (map P xs) 1 (map (\<lambda>_. 0) ys)) =
         map (\<lambda>x. if P x then 1 else 0) xs"
  using assms by (intro nth_equalityI) (simp_all add: assign_where_def)

lemma pred_mask_eq:
  "pred_mask th pred = map (\<lambda>p. if real th < p then 1 else 0) (elems pred)"
  using two_assignments [of "elems pred" "elems pred" "\<lambda>p. real th < p"]
  by (simp add: pred_mask_def not_less)

lemma gt_mask_eq:
  "length (elems pred) = length (elems gt) \<Longrightarrow>
   gt_mask th pred gt = map (\<lambda>g. if real th / real thresholds < g then 1 else 0) (elems gt)"
  using two_assignments [of "elems gt" "elems pred" "\<lambda>g. real th / real thresholds < g"]
  by (simp add: gt_mask_def not_less)

lemma sum_list_indicator:
  "sum_list (map (\<lambda>x. if P x then 1 else 0) xs) = int (length (filter P xs))"
  by (induction xs) simp_all

lemma pred_count_eq: "pred_count th pred = int (length (filter (\<lambda>p. real th < p) (elems pred)))"
  by (simp add: pred_count_def pred_mask_eq sum_list_indicator)

lemma gt_count_eq:
  "length (elems pred) = length (elems gt) \<Longrightarrow>
   gt_count th pred gt = int (length (filter (\<lambda>g. real th / real thresholds < g) (elems gt)))"
  by (simp add: gt_count_def gt_mask_eq sum_list_indicator)

lemma and_indicator:
  "(if A then 1 else 0) AND (if B then 1 else (0::int)) = (if A \<and> B then 1 else 0)"
  by simp

lemma tp_count_eq:
  assumes "length (elems pred) = length (elems gt)"
  shows "tp_count th pred gt =
     int (length (filter (\<lambda>(p, g). real th < p \<and> real th / real thresholds < g)
                    (zip (elems pred) (elems gt))))"
proof -
  define Q where "Q = (\<lambda>x::real \<times> real. real th < fst x \<and> real th / real thresholds < snd x)"
  have "map2 (AND) (pred_mask th pred) (gt_mask th pred gt) =
        map (\<lambda>x. if Q x then 1 else 0) (zip (elems pred) (elems gt))"
    unfolding pred_mask_eq gt_mask_eq [OF assms] Q_def
    by (simp add: zip_map_map split_def and_indicator)
  then have "tp_count th pred gt = int (length (filter Q (zip (elems pred) (elems gt))))"
    by (simp only: tp_count_def sum_list_indicator)
  moreover have "Q = (\<lambda>(p, g). real th < p \<and> real th / real thresholds < g)"
    by (simp add: Q_def fun_eq_iff)
  ultimately show ?thesis by simp
qed

section \<open>The report of an accumulator without images\<close>

lemma argmax_loop_nan: "argmax_loop vs i NaN k = k"
  by (cases vs) simp_all

lemma np_div_by_zero_not_finite: "np_div x (Fin 0) \<noteq> Fin r"
  by (cases x) simp_all

lemma f_measure_init: "f_measure init = replicate thresholds NaN"
  by (simp add: f_measure_def init_def zip_replicate)

text \<open>
  Claim C4 says that \<^verbatim>\<open>print_result\<close> on an accumulator without images raises and
  produces no value from a zero divisor. There is no check of \<^verbatim>\<open>cnt\<close>: on the fresh
  accumulator the first three lines are computed with NumPy scalars, whose division by
  zero gives \<open>NaN\<close>, and are printed; the exception comes from the fourth line, where
  the Python integer \<^verbatim>\<open>self.mae\<close> is divided by the Python integer \<^verbatim>\<open>self.cnt\<close>.
\<close>

theorem print_result_empty_counterexample:
  "print_result init =
     ([(''Max F-measure:'', NaN), (''Precision:    '', NaN), (''Recall:       '', NaN)],
      Some ZeroDivisionError)"
proof -
  have "replicate thresholds NaN = NaN # replicate 255 NaN"
    by (simp add: thresholds_def replicate_Suc [symmetric] del: replicate_Suc)
  then have am: "np_argmax (f_measure init) = Inr 0"
    by (simp add: f_measure_init np_argmax_def argmax_loop_nan)
  have nth: "f_measure init ! 0 = NaN"
    by (simp add: f_measure_init thresholds_def)
  have st: "cnt init = 0" "mae init = PyInt 0" "precision init ! 0 = 0" "recall init ! 0 = 0"
    by (simp_all add: init_def thresholds_def)
  show ?thesis
    by (simp add: print_result_def am nth st)
qed

text \<open>
  Claim C4, amended. On every accumulator with \<^verbatim>\<open>cnt = 0\<close> whose \<^verbatim>\<open>mae\<close> is still a
  Python integer (as \<^verbatim>\<open>__init__\<close> leaves it), \<^verbatim>\<open>print_result\<close> prints the lines of the
  maximal F-measure, the precision and the recall, each with a value that is not a
  finite number, and then raises \<^verbatim>\<open>ZeroDivisionError\<close>; the lines of the mean absolute
  error and of the S-measure are not printed.
\<close>

theorem print_result_empty:
  assumes "cnt m = 0" and "mae m = PyInt k" and "precision m \<noteq> []" and "recall m \<noteq> []"
  shows "snd (print_result m) = Some ZeroDivisionError \<and>
         map fst (fst (print_result m)) = [''Max F-measure:'', ''Precision:    '', ''Recall:       ''] \<and>
         (\<forall>(l, v) \<in> set (fst (print_result m)). \<forall>r. v \<noteq> Fin r)"
proof -
  obtain p ps r rs where pr: "precision m = p # ps" "recall m = r # rs"
    using assms(3,4) by (cases "precision m"; cases "recall m") auto
  then obtain i where am: "np_argmax (f_measure m) = Inr i"
    by (simp add: f_measure_def np_argmax_def)
  show ?thesis
    by (simp add: print_result_def am assms(1,2) np_div_by_zero_not_finite)
qed

theorem print_result_empty_witness:
  "cnt init = 0 \<and> mae init = PyInt 0 \<and> precision init \<noteq> [] \<and> recall init \<noteq> [] \<and>
   snd (print_result init) = Some ZeroDivisionError \<and>
   map fst (fst (print_result init)) = [''Max F-measure:'', ''Precision:    '', ''Recall:       '']"
proof -
  have h: "cnt init = 0" "mae init = PyInt 0" "precision init \<noteq> []" "recall init \<noteq> []"
    by (simp_all add: init_def thresholds_def)
  show ?thesis
    using h print_result_empty [OF h] by blast
qed

section \<open>The report against its specification\<close>

lemma np_le_Fin [simp]: "np_le (Fin a) (Fin b) = (a \<le> b)"
  by (auto simp: np_le_def)

lemma argmax_loop_inv:
  "i \<le> length rs \<Longrightarrow> k < i \<Longrightarrow> (\<forall>j<i. rs ! j \<le> rs ! k) \<Longrightarrow> (\<forall>j<k. rs ! j < rs ! k) \<Longrightarrow>
   (let r = argmax_loop (map Fin (drop i rs)) i (Fin (rs ! k)) k
    in r < length rs \<and> (\<forall>j<length rs. rs ! j \<le> rs ! r) \<and> (\<forall>j<r. rs ! j < rs ! r))"
proof (induction "length rs - i" arbitrary: i k)
  case 0
  then have "drop i rs = []" "i = length rs" by simp_all
  then show ?case using 0 by simp
next
  case (Suc n)
  then have i: "i < length rs" by simp
  have d: "drop i rs = rs ! i # drop (Suc i) rs"
    using i by (simp add: Cons_nth_drop_Suc)
  show ?case
  proof (cases "rs ! i \<le> rs ! k")
    case True
    have "\<forall>j<Suc i. rs ! j \<le> rs ! k"
      using Suc.prems(3) True by (simp add: less_Suc_eq)
    with Suc.hyps(1) [of "Suc i" k] Suc.hyps(2) Suc.prems i
    have "(let r = argmax_loop (map Fin (drop (Suc i) rs)) (Suc i) (Fin (rs ! k)) k
      in r < length rs \<and> (\<forall>j<length rs. rs ! j \<le> rs ! r) \<and> (\<forall>j<r. rs ! j < rs ! r))"
      by simp
    then show ?thesis using True by (simp add: d)
  next
    case False
    then have gt: "rs ! k < rs ! i" by simp
    have a: "\<forall>j<Suc i. rs ! j \<le> rs ! i"
    proof (intro allI impI)
      fix j assume "j < Suc i"
      then have "j < i \<or> j = i" by auto
      then show "rs ! j \<le> rs ! i" using Suc.prems(3) gt by force
    qed
    have b: "\<forall>j<i. rs ! j < rs ! i"
      using Suc.prems(3) gt by force
    from Suc.hyps(1) [of "Suc i" i] Suc.hyps(2) i a b
    have "(let r = argmax_loop (map Fin (drop (Suc i) rs)) (Suc i) (Fin (rs ! i)) i
      in r < length rs \<and> (\<forall>j<length rs. rs ! j \<le> rs ! r) \<and> (\<forall>j<r. rs ! j < rs ! r))"
      by simp
    then show ?thesis using False by (simp add: d)
  qed
qed

lemma np_argmax_finite:
  assumes "rs \<noteq> []"
  shows "\<exists>i. np_argmax (map Fin rs) = Inr i \<and> i < length rs \<and>
             (\<forall>j<length rs. rs ! j \<le> rs ! i) \<and> (\<forall>j<i. rs ! j < rs ! i)"
proof -
  obtain v vs where rs: "rs = v # vs" using assms by (cases rs) auto
  have "(let r = argmax_loop (map Fin (drop 1 rs)) 1 (Fin (rs ! 0)) 0
    in r < length rs \<and> (\<forall>j<length rs. rs ! j \<le> rs ! r) \<and> (\<forall>j<r. rs ! j < rs ! r))"
    by (rule argmax_loop_inv) (simp_all add: rs)
  then show ?thesis
    by (simp add: rs np_argmax_def Let_def)
qed


lemma f_measure_finite:
  assumes "wf_metric m" and "\<forall>th<thresholds. beta * precision m ! th + recall m ! th \<noteq> 0"
  shows "f_measure m = map Fin (map (f_raw m) [0..<thresholds])"
proof (rule nth_equalityI)
  show "length (f_measure m) = length (map Fin (map (f_raw m) [0..<thresholds]))"
    using assms(1) by (simp add: f_measure_def wf_metric_def)
next
  fix i assume "i < length (f_measure m)"
  then have i: "i < thresholds"
    using assms(1) by (simp add: f_measure_def wf_metric_def)
  then show "f_measure m ! i = map Fin (map (f_raw m) [0..<thresholds]) ! i"
    using assms by (simp add: f_measure_def wf_metric_def f_raw_def)
qed

lemma py_truediv_pos: "0 < n \<Longrightarrow> py_truediv x n = Inr (np_div (py_val x) (Fin (real n)))"
  by (cases x) simp_all

lemma print_result_finite:
  assumes "0 < cnt m" and "wf_metric m"
    and "\<forall>th<thresholds. beta * precision m ! th + recall m ! th \<noteq> 0"
  shows "\<exists>i<thresholds.
           print_result m =
             ([(''Max F-measure:'', Fin (f_raw m i / real (cnt m))),
               (''Precision:    '', Fin (precision m ! i / real (cnt m))),
               (''Recall:       '', Fin (recall m ! i / real (cnt m))),
               (''MAE:          '', np_div (py_val (mae m)) (Fin (real (cnt m)))),
               (''S-measure:    '', np_div (py_val (q m)) (Fin (real (cnt m))))], None) \<and>
           (\<forall>j<thresholds. f_raw m j \<le> f_raw m i) \<and> (\<forall>j<i. f_raw m j < f_raw m i)"
proof -
  let ?rs = "map (f_raw m) [0..<thresholds]"
  have fm: "f_measure m = map Fin ?rs"
    using assms(2,3) by (rule f_measure_finite)
  have "?rs \<noteq> []" by (simp add: thresholds_def)
  from np_argmax_finite [OF this]
  obtain i where am: "np_argmax (map Fin ?rs) = Inr i" and i: "i < thresholds"
    and mx: "\<forall>j<length ?rs. ?rs ! j \<le> ?rs ! i" and fst: "\<forall>j<i. ?rs ! j < ?rs ! i"
    by auto
  have mx': "\<forall>j<thresholds. f_raw m j \<le> f_raw m i"
    using mx i by simp
  have fst': "\<forall>j<i. f_raw m j < f_raw m i"
    using fst i by simp
  have c: "real (cnt m) \<noteq> 0" using assms(1) by simp
  have "print_result m =
             ([(''Max F-measure:'', Fin (f_raw m i / real (cnt m))),
               (''Precision:    '', Fin (precision m ! i / real (cnt m))),
               (''Recall:       '', Fin (recall m ! i / real (cnt m))),
               (''MAE:          '', np_div (py_val (mae m)) (Fin (real (cnt m)))),
               (''S-measure:    '', np_div (py_val (q m)) (Fin (real (cnt m))))], None)"
    unfolding print_result_def fm am Let_def
    using i c by (simp add: py_truediv_pos [OF assms(1)])
  then show ?thesis using i mx' fst' by blast
qed




subsection \<open>Every image adds positive precision and recall\<close>

lemma set_assign_where: "set (assign_where msk v xs) \<subseteq> insert v (set xs)"
proof
  fix x assume "x \<in> set (assign_where msk v xs)"
  then obtain b y where "(b, y) \<in> set (zip msk xs)" and "x = (if b then v else y)"
    by (auto simp: assign_where_def)
  then show "x \<in> insert v (set xs)"
    by (auto dest: set_zip_rightD)
qed

lemma pred_mask_bits: "x \<in> set (pred_mask th pred) \<Longrightarrow> x = 0 \<or> x = 1"
  using set_assign_where [of "map (\<lambda>p. p \<le> real th) (elems pred)" 0
      "assign_where (map (\<lambda>p. real th < p) (elems pred)) 1 (map (\<lambda>_. 0) (elems pred))"]
    set_assign_where [of "map (\<lambda>p. real th < p) (elems pred)" 1 "map (\<lambda>_. 0) (elems pred)"]
  by (auto simp: pred_mask_def)

lemma gt_mask_bits: "x \<in> set (gt_mask th pred gt) \<Longrightarrow> x = 0 \<or> x = 1"
  using set_assign_where [of "map (\<lambda>g. g \<le> real th / real thresholds) (elems gt)" 0
      "assign_where (map (\<lambda>g. real th / real thresholds < g) (elems gt)) 1 (map (\<lambda>_. 0) (elems pred))"]
    set_assign_where [of "map (\<lambda>g. real th / real thresholds < g) (elems gt)" 1 "map (\<lambda>_. 0) (elems pred)"]
  by (auto simp: gt_mask_def)

lemma pred_count_nonneg: "0 \<le> pred_count th pred"
  unfolding pred_count_def by (rule sum_list_nonneg) (auto dest: pred_mask_bits)

lemma gt_count_nonneg: "0 \<le> gt_count th pred gt"
  unfolding gt_count_def by (rule sum_list_nonneg) (auto dest: gt_mask_bits)

lemma tp_count_nonneg: "0 \<le> tp_count th pred gt"
  unfolding tp_count_def
proof (rule sum_list_nonneg)
  fix x assume "x \<in> set (map2 (AND) (pred_mask th pred) (gt_mask th pred gt))"
  then obtain a b where "x = a AND b" "a \<in> set (pred_mask th pred)"
    by (auto dest: set_zip_leftD)
  then show "0 \<le> x"
    by (auto dest: pred_mask_bits)
qed

lemma epsilon_pos: "0 < epsilon"
  by (simp add: epsilon_def)

lemma precision_at_pos: "0 < precision_at th pred gt"
  unfolding precision_at_def
  using tp_count_nonneg [of th pred gt] pred_count_nonneg [of th pred] epsilon_pos
  by (intro divide_pos_pos) simp_all

lemma recall_at_pos: "0 < recall_at th pred gt"
  unfolding recall_at_def
  using tp_count_nonneg [of th pred gt] gt_count_nonneg [of th pred gt] epsilon_pos
  by (intro divide_pos_pos) simp_all

lemma contribution_nth:
  "th < thresholds \<Longrightarrow> precision (contribution pred gt) ! th = precision_at th pred gt"
  "th < thresholds \<Longrightarrow> recall (contribution pred gt) ! th = recall_at th pred gt"
  by (simp_all add: contribution_def precision_vec_def recall_vec_def)

lemma merge_nth:
  "wf_metric a \<Longrightarrow> wf_metric b \<Longrightarrow> th < thresholds \<Longrightarrow>
     precision (merge a b) ! th = precision a ! th + precision b ! th"
  "wf_metric a \<Longrightarrow> wf_metric b \<Longrightarrow> th < thresholds \<Longrightarrow>
     recall (merge a b) ! th = recall a ! th + recall b ! th"
  by (simp_all add: merge_def wf_metric_def)

lemma update_init:
  "shape pred = shape gt \<Longrightarrow> update init pred gt = (contribution pred gt, None)"
  by (simp add: update_eq wf_metric_init merge_init wf_metric_contribution)

text \<open>
  After any non-empty run of updates the accumulator has counted its images and every
  entry of its two vectors is positive, so the F-measure is defined at every threshold.
\<close>

lemma merge_contribution_positive:
  assumes "wf_metric m"
    and "\<forall>th<thresholds. 0 \<le> precision m ! th \<and> 0 \<le> recall m ! th"
  shows "\<forall>th<thresholds. 0 < precision (merge m (contribution pred gt)) ! th \<and>
                         0 < recall (merge m (contribution pred gt)) ! th"
proof (intro allI impI)
  fix th assume th: "th < thresholds"
  have "0 \<le> precision m ! th" "0 \<le> recall m ! th"
    using assms(2) th by simp_all
  then show "0 < precision (merge m (contribution pred gt)) ! th \<and>
             0 < recall (merge m (contribution pred gt)) ! th"
    unfolding merge_nth [OF assms(1) wf_metric_contribution th] contribution_nth [OF th]
    using precision_at_pos [of th pred gt] recall_at_pos [of th pred gt]
    by (simp add: add_nonneg_pos)
qed

lemma run_positive:
  assumes "wf_metric m" and "\<forall>(pred, gt) \<in> set ps. shape pred = shape gt"
    and "\<forall>th<thresholds. 0 \<le> precision m ! th \<and> 0 \<le> recall m ! th" and "ps \<noteq> []"
  shows "snd (run m ps) = None \<and> cnt (fst (run m ps)) = cnt m + length ps \<and>
         wf_metric (fst (run m ps)) \<and>
         (\<forall>th<thresholds. 0 < precision (fst (run m ps)) ! th \<and> 0 < recall (fst (run m ps)) ! th)"
  using assms
proof (induction ps arbitrary: m)
  case Nil
  then show ?case by simp
next
  case (Cons p ps)
  obtain pred gt where p: "p = (pred, gt)" by (cases p)
  have sh: "shape pred = shape gt" and rest: "\<forall>(pred, gt) \<in> set ps. shape pred = shape gt"
    using Cons.prems(2) by (simp_all add: p)
  define m' where "m' = merge m (contribution pred gt)"
  have u: "update m pred gt = (m', None)"
    unfolding m'_def using Cons.prems(1) sh by (rule update_eq)
  have wf: "wf_metric m'"
    unfolding m'_def using Cons.prems(1) wf_metric_contribution by (rule wf_metric_merge)
  have pos: "\<forall>th<thresholds. 0 < precision m' ! th \<and> 0 < recall m' ! th"
    unfolding m'_def using Cons.prems(1,3) by (rule merge_contribution_positive)
  have c: "cnt m' = cnt m + 1"
    by (simp add: m'_def merge_def contribution_def)
  have r: "run m (p # ps) = run m' ps"
    by (simp add: p u)
  show ?case
  proof (cases "ps = []")
    case True
    have "run m (p # ps) = (m', None)"
      using r True by simp
    then show ?thesis using wf pos c True by simp
  next
    case False
    have nn: "\<forall>th<thresholds. 0 \<le> precision m' ! th \<and> 0 \<le> recall m' ! th"
      using pos by (simp add: less_imp_le)
    from Cons.IH [OF wf rest nn False] c
    show ?thesis by (simp add: r)
  qed
qed

lemma run_init_denominators:
  assumes "\<forall>(pred, gt) \<in> set ps. shape pred = shape gt" and "ps \<noteq> []"
  shows "1 \<le> cnt (fst (run init ps)) \<and> wf_metric (fst (run init ps)) \<and>
         (\<forall>th<thresholds. beta * precision (fst (run init ps)) ! th + recall (fst (run init ps)) ! th \<noteq> 0)"
proof -
  have z: "\<forall>th<thresholds. 0 \<le> precision init ! th \<and> 0 \<le> recall init ! th"
    by (simp add: init_def)
  note rp = run_positive [OF wf_metric_init assms(1) z assms(2)]
  have d: "beta * precision (fst (run init ps)) ! th + recall (fst (run init ps)) ! th \<noteq> 0"
    if th: "th < thresholds" for th
  proof -
    have "0 < precision (fst (run init ps)) ! th" "0 < recall (fst (run init ps)) ! th"
      using rp th by simp_all
    then have "0 < beta * precision (fst (run init ps)) ! th + recall (fst (run init ps)) ! th"
      by (simp add: beta_def add_pos_pos)
    then show ?thesis by simp
  qed
  have "0 < length ps" using assms(2) by simp
  then have "1 \<le> cnt (fst (run init ps))"
    using rp by linarith
  then show ?thesis using rp d by blast
qed


section \<open>The concrete scenarios\<close>

lemma elems_const_image [simp]: "elems (const_image h w v) = replicate (h * w) v"
  by (simp add: const_image_def)

lemma shape_const_image [simp]: "shape (const_image h w v) = (h, w)"
  by (simp add: const_image_def shape_def)

lemma pred_count_const:
  "pred_count th (const_image h w v) = (if real th < v then int (h * w) else 0)"
  by (simp add: pred_count_eq)

lemma gt_count_const:
  "gt_count th (const_image h w v) (const_image h w g) =
     (if real th / real thresholds < g then int (h * w) else 0)"
  by (simp add: gt_count_eq)

lemma tp_count_const:
  "tp_count th (const_image h w v) (const_image h w g) =
     (if real th < v \<and> real th / real thresholds < g then int (h * w) else 0)"
  by (simp add: tp_count_def pred_mask_eq gt_mask_eq zip_replicate sum_list_replicate)

lemma np_mean_replicate: "0 < n \<Longrightarrow> np_mean (replicate n v) = Fin v"
  by (simp add: np_mean_def sum_list_replicate)

lemma mae_const:
  "0 < h * w \<Longrightarrow>
   mae (contribution (const_image h w v) (const_image h w g)) = NpFloat (Fin \<bar>v / 255 - g / 255\<bar>)"
  by (simp add: contribution_def div_scalar_def zip_replicate np_mean_replicate)

lemma s_measure_score_gt_zero:
  "0 < h * w \<Longrightarrow>
   fst (s_measure_score (div_scalar (const_image h w v) 255) (div_scalar (const_image h w 0) 255))
     = NpFloat (Fin (1 - v / 255))"
  by (simp add: s_measure_score_def div_scalar_def np_mean_replicate np_sub_def)

lemma s_measure_score_gt_one:
  "0 < h * w \<Longrightarrow>
   fst (s_measure_score (div_scalar (const_image h w v) 255) (div_scalar (const_image h w 255) 255))
     = NpFloat (Fin (v / 255))"
  by (simp add: s_measure_score_def div_scalar_def np_mean_replicate)

text \<open>
  Claim C2 expects a recall near \<open>0\<close> at threshold \<open>0\<close> when the prediction is all \<open>255\<close>
  and the ground truth all \<open>0\<close>. No pixel is a true positive and none is positive in
  the ground truth, so the recall added is \<open>(0 + \<epsilon>) / (0 + \<epsilon>)\<close>, which is \<open>1\<close>.
\<close>

theorem empty_gt_recall_counterexample:
  "recall_at 0 (const_image 4 4 255) (const_image 4 4 0) = 1"
  by (simp add: recall_at_def tp_count_const gt_count_const epsilon_def)

text \<open>
  Claim C2, amended. One update of a fresh accumulator with a \<open>4 \<times> 4\<close> prediction of
  \<open>255\<close> everywhere and a \<open>4 \<times> 4\<close> ground truth of zeros raises nothing, adds the
  S-measure \<open>0\<close> and the mean absolute error \<open>1\<close>, and at threshold \<open>0\<close> adds the recall
  \<open>1\<close> and the precision \<open>\<epsilon> / (16 + \<epsilon>)\<close>: it is the precision that is near zero.
\<close>

theorem full_pred_empty_gt:
  "snd (update init (const_image 4 4 255) (const_image 4 4 0)) = None \<and>
   q (fst (update init (const_image 4 4 255) (const_image 4 4 0))) = NpFloat (Fin 0) \<and>
   mae (fst (update init (const_image 4 4 255) (const_image 4 4 0))) = NpFloat (Fin 1) \<and>
   recall (fst (update init (const_image 4 4 255) (const_image 4 4 0))) ! 0 = 1 \<and>
   precision (fst (update init (const_image 4 4 255) (const_image 4 4 0))) ! 0 =
     epsilon / (16 + epsilon)"
proof -
  let ?m = "contribution (const_image 4 4 255) (const_image 4 4 0)"
  have u: "update init (const_image 4 4 255) (const_image 4 4 0) = (?m, None)"
    by (simp add: update_init)
  have 1: "q ?m = NpFloat (Fin 0)"
    using s_measure_score_gt_zero [of 4 4 255] by (simp add: contribution_def)
  have 2: "mae ?m = NpFloat (Fin 1)"
    using mae_const [of 4 4 255 0] by simp
  have th: "0 < thresholds" by (simp add: thresholds_def)
  have 3: "recall ?m ! 0 = 1"
    by (simp add: contribution_nth [OF th] recall_at_def tp_count_const gt_count_const epsilon_def)
  have 4: "precision ?m ! 0 = epsilon / (16 + epsilon)"
    by (simp add: contribution_nth [OF th] precision_at_def tp_count_const pred_count_const)
  show ?thesis
    unfolding u fst_conv snd_conv using 1 2 3 4 by simp
qed

lemma precision_all_white:
  assumes "th < thresholds"
  shows "precision_at th (const_image 4 4 255) (const_image 4 4 255) = 1"
proof -
  have "real th / real thresholds < 255"
    using assms by (simp add: thresholds_def)
  then have "tp_count th (const_image 4 4 255) (const_image 4 4 255) =
             pred_count th (const_image 4 4 255)"
    by (simp add: tp_count_const pred_count_const)
  moreover have "real_of_int (pred_count th (const_image 4 4 255)) + epsilon \<noteq> 0"
    using pred_count_nonneg [of th "const_image 4 4 255"] epsilon_pos by linarith
  ultimately show ?thesis
    by (simp add: precision_at_def)
qed

lemma recall_all_white:
  assumes "th < thresholds"
  shows "0 < recall_at th (const_image 4 4 255) (const_image 4 4 255)"
    and "recall_at th (const_image 4 4 255) (const_image 4 4 255) \<le> 1"
    and "th = 0 \<Longrightarrow> recall_at th (const_image 4 4 255) (const_image 4 4 255) = 1"
proof -
  have g: "real th / real thresholds < 255"
    using assms by (simp add: thresholds_def)
  show "0 < recall_at th (const_image 4 4 255) (const_image 4 4 255)"
    by (rule recall_at_pos)
  show "recall_at th (const_image 4 4 255) (const_image 4 4 255) \<le> 1"
    using g by (simp add: recall_at_def tp_count_const gt_count_const epsilon_def)
  show "recall_at th (const_image 4 4 255) (const_image 4 4 255) = 1" if "th = 0"
    using that by (simp add: recall_at_def tp_count_const gt_count_const epsilon_def thresholds_def)
qed

text \<open>
  Claim C8. After one update of a fresh accumulator with prediction and ground truth
  both the \<open>4 \<times> 4\<close> array of \<open>255\<close>, the report prints the maximal F-measure \<open>1\<close>, the
  precision \<open>1\<close>, the recall \<open>1\<close>, the mean absolute error \<open>0\<close> and the S-measure \<open>1\<close>.
\<close>

theorem all_white_report:
  "snd (update init (const_image 4 4 255) (const_image 4 4 255)) = None \<and>
   print_result (fst (update init (const_image 4 4 255) (const_image 4 4 255))) =
     ([(''Max F-measure:'', Fin 1), (''Precision:    '', Fin 1), (''Recall:       '', Fin 1),
       (''MAE:          '', Fin 0), (''S-measure:    '', Fin 1)], None)"
proof -
  let ?a = "const_image 4 4 255"
  let ?m = "contribution ?a ?a"
  have u: "update init ?a ?a = (?m, None)"
    by (simp add: update_init)
  have c: "cnt ?m = 1" by (simp add: contribution_def)
  have P: "precision ?m ! th = 1" if "th < thresholds" for th
    using that by (simp add: contribution_nth precision_all_white)
  have R: "0 < recall ?m ! th" "recall ?m ! th \<le> 1" if "th < thresholds" for th
    using that recall_all_white [of th] by (simp_all add: contribution_nth)
  have R0: "recall ?m ! 0 = 1"
    using recall_all_white(3) [of 0] by (simp add: contribution_nth thresholds_def)
  have d: "\<forall>th<thresholds. beta * precision ?m ! th + recall ?m ! th \<noteq> 0"
  proof (intro allI impI)
    fix th assume th: "th < thresholds"
    show "beta * precision ?m ! th + recall ?m ! th \<noteq> 0"
      using R(1) [OF th] by (simp add: P [OF th] beta_def)
  qed
  have f0: "f_raw ?m 0 = 1"
    using P [of 0] R0 by (simp add: f_raw_def beta_def thresholds_def)
  have fle: "f_raw ?m th \<le> 1" if th: "th < thresholds" for th
  proof -
    have "13 / 10 * recall ?m ! th \<le> 3 / 10 + recall ?m ! th"
      using R(2) [OF th] by simp
    moreover have "0 < 3 / 10 + recall ?m ! th"
      using R(1) [OF th] by simp
    ultimately show ?thesis
      by (simp add: f_raw_def P [OF th] beta_def)
  qed
  have cpos: "0 < cnt ?m" by (simp add: c)
  from print_result_finite [OF cpos wf_metric_contribution d]
  obtain i where i: "i < thresholds"
    and pr: "print_result ?m =
             ([(''Max F-measure:'', Fin (f_raw ?m i / real (cnt ?m))),
               (''Precision:    '', Fin (precision ?m ! i / real (cnt ?m))),
               (''Recall:       '', Fin (recall ?m ! i / real (cnt ?m))),
               (''MAE:          '', np_div (py_val (mae ?m)) (Fin (real (cnt ?m)))),
               (''S-measure:    '', np_div (py_val (q ?m)) (Fin (real (cnt ?m))))], None)"
    and first: "\<forall>j<i. f_raw ?m j < f_raw ?m i"
    by blast
  have "i = 0"
  proof (rule ccontr)
    assume "i \<noteq> 0"
    then have "f_raw ?m 0 < f_raw ?m i" using first by simp
    then show False using fle [OF i] f0 by simp
  qed
  have mae0: "mae ?m = NpFloat (Fin 0)"
    using mae_const [of 4 4 255 255] by simp
  have q1: "q ?m = NpFloat (Fin 1)"
    using s_measure_score_gt_one [of 4 4 255] by (simp add: contribution_def)
  have "print_result ?m =
     ([(''Max F-measure:'', Fin 1), (''Precision:    '', Fin 1), (''Recall:       '', Fin 1),
       (''MAE:          '', Fin 0), (''S-measure:    '', Fin 1)], None)"
    unfolding pr \<open>i = 0\<close> f0 R0 c mae0 q1 using P [of 0] by (simp add: thresholds_def)
  then show ?thesis
    unfolding u fst_conv snd_conv by simp
qed

section \<open>The threshold of the ground truth\<close>

lemma binary_gt_normalized:
  assumes "th < thresholds" and "g = 0 \<or> g = 255"
  shows "(real th / real thresholds < g) = (real th / real thresholds < g / 255)"
  using assms by (auto simp add: thresholds_def)

lemma binary_counts:
  assumes "th < thresholds" and "\<forall>g \<in> set (elems gt). g = 0 \<or> g = 255"
    and "length (elems pred) = length (elems gt)"
  shows "gt_count th pred gt = gt_count_normalized th gt"
    and "tp_count th pred gt = tp_count_normalized th pred gt"
proof -
  have "filter (\<lambda>g. real th / real thresholds < g) (elems gt) =
        filter (\<lambda>g. real th / real thresholds < g / 255) (elems gt)"
    by (rule filter_cong [OF refl]) (use assms(1,2) in \<open>simp add: binary_gt_normalized\<close>)
  then show "gt_count th pred gt = gt_count_normalized th gt"
    by (simp add: gt_count_eq [OF assms(3)] gt_count_normalized_def)
  have "filter (\<lambda>(p, g). real th < p \<and> real th / real thresholds < g) (zip (elems pred) (elems gt)) =
        filter (\<lambda>(p, g). real th < p \<and> real th / real thresholds < g / 255) (zip (elems pred) (elems gt))"
  proof (rule filter_cong [OF refl])
    fix x assume "x \<in> set (zip (elems pred) (elems gt))"
    then have "(fst x, snd x) \<in> set (zip (elems pred) (elems gt))" by simp
    then have "snd x \<in> set (elems gt)" by (rule set_zip_rightD)
    then have "snd x = 0 \<or> snd x = 255" using assms(2) by blast
    then show "(case x of (p, g) \<Rightarrow> real th < p \<and> real th / real thresholds < g) =
               (case x of (p, g) \<Rightarrow> real th < p \<and> real th / real thresholds < g / 255)"
      using binary_gt_normalized [OF assms(1), of "snd x"] by (simp add: split_def)
  qed
  then show "tp_count th pred gt = tp_count_normalized th pred gt"
    by (simp add: tp_count_eq [OF assms(3)] tp_count_normalized_def)
qed

text \<open>
  Claim C3 says that the sweep compares the normalised ground truth with \<open>th / 256\<close>.
  \<^verbatim>\<open>update\<close> hands the un-normalised arrays to \<^verbatim>\<open>compute_precision_and_recall\<close>; the
  normalised ones go to the mean absolute error and the S-measure only. For a
  prediction \<open>[[0]]\<close> and a ground truth \<open>[[100]]\<close>, the pixel counts as positive at
  threshold \<open>200\<close>, since \<open>100\<close> is above \<open>200 / 256\<close>, and the recall entry that \<^verbatim>\<open>update\<close>
  leaves is \<open>\<epsilon> / (1 + \<epsilon>)\<close>; with the normalised value \<open>100 / 255\<close> the ground-truth mask
  would be empty and the entry would be \<open>\<epsilon> / \<epsilon> = 1\<close>.
\<close>

theorem update_gt_threshold_counterexample:
  "update init (const_image 1 1 0) (const_image 1 1 100) =
     (contribution (const_image 1 1 0) (const_image 1 1 100), None) \<and>
   recall (fst (update init (const_image 1 1 0) (const_image 1 1 100))) ! 200 =
     epsilon / (1 + epsilon) \<and>
   recall_normalized 200 (const_image 1 1 0) (const_image 1 1 100) = 1 \<and>
   gt_count 200 (const_image 1 1 0) (const_image 1 1 100) = 1 \<and>
   gt_count_normalized 200 (const_image 1 1 100) = 0"
proof -
  have u: "update init (const_image 1 1 0) (const_image 1 1 100) =
     (contribution (const_image 1 1 0) (const_image 1 1 100), None)"
    by (rule update_init) simp
  have r: "recall (contribution (const_image 1 1 0) (const_image 1 1 100)) ! 200 =
     epsilon / (1 + epsilon)"
    by (simp add: contribution_nth thresholds_def recall_at_def tp_count_const gt_count_const)
  have n: "recall_normalized 200 (const_image 1 1 0) (const_image 1 1 100) = 1"
    using epsilon_pos
    by (simp add: recall_normalized_def tp_count_normalized_def gt_count_normalized_def
        thresholds_def)
  have c: "gt_count 200 (const_image 1 1 0) (const_image 1 1 100) = 1"
    by (simp add: gt_count_const thresholds_def)
  have g: "gt_count_normalized 200 (const_image 1 1 100) = 0"
    by (simp add: gt_count_normalized_def thresholds_def)
  show ?thesis
    unfolding u fst_conv using r n c g by simp
qed

text \<open>
  Claim C3, amended. For every accumulator, every image pair of one shape and every
  threshold \<open>th\<close>, \<^verbatim>\<open>update\<close> adds to the recall entry \<open>(tp + \<epsilon>) / (n + \<epsilon>)\<close> and to the
  precision entry \<open>(tp + \<epsilon>) / (k + \<epsilon>)\<close>, where \<open>n\<close> is the number of pixels whose raw
  ground-truth value (on the scale \<open>0\<close> to \<open>255\<close>) is above \<open>th / 256\<close>, \<open>k\<close> the number of
  pixels whose raw prediction is above \<open>th\<close>, and \<open>tp\<close> the number of pixels with both.
  For a ground truth whose pixels are all \<open>0\<close> or \<open>255\<close> the recall added is the one of
  the normalised comparison.
\<close>

theorem update_gt_threshold_raw:
  assumes "wf_metric m" and "wf_array pred" and "wf_array gt" and "shape pred = shape gt"
    and "th < thresholds"
  shows "snd (update m pred gt) = None \<and>
         recall (fst (update m pred gt)) ! th =
           recall m ! th +
           (real (length (filter (\<lambda>(p, g). real th < p \<and> real th / 256 < g)
                            (zip (elems pred) (elems gt)))) + epsilon) /
           (real (length (filter (\<lambda>g. real th / 256 < g) (elems gt))) + epsilon) \<and>
         precision (fst (update m pred gt)) ! th =
           precision m ! th +
           (real (length (filter (\<lambda>(p, g). real th < p \<and> real th / 256 < g)
                            (zip (elems pred) (elems gt)))) + epsilon) /
           (real (length (filter (\<lambda>p. real th < p) (elems pred))) + epsilon) \<and>
         ((\<forall>g \<in> set (elems gt). g = 0 \<or> g = 255) \<longrightarrow>
            recall (fst (update m pred gt)) ! th = recall m ! th + recall_normalized th pred gt)"
proof -
  have len: "length (elems pred) = length (elems gt)"
    using assms(2,3,4) by (simp add: wf_array_def shape_def)
  have u: "update m pred gt = (merge m (contribution pred gt), None)"
    using assms(1,4) by (rule update_eq)
  have r: "recall (fst (update m pred gt)) ! th = recall m ! th + recall_at th pred gt"
    unfolding u fst_conv
    by (simp add: merge_nth(2) [OF assms(1) wf_metric_contribution assms(5)]
        contribution_nth(2) [OF assms(5)])
  have p: "precision (fst (update m pred gt)) ! th = precision m ! th + precision_at th pred gt"
    unfolding u fst_conv
    by (simp add: merge_nth(1) [OF assms(1) wf_metric_contribution assms(5)]
        contribution_nth(1) [OF assms(5)])
  have ra: "recall_at th pred gt =
      (real (length (filter (\<lambda>(p, g). real th < p \<and> real th / 256 < g)
                       (zip (elems pred) (elems gt)))) + epsilon) /
      (real (length (filter (\<lambda>g. real th / 256 < g) (elems gt))) + epsilon)"
    by (simp add: recall_at_def tp_count_eq [OF len] gt_count_eq [OF len] thresholds_def)
  have pa: "precision_at th pred gt =
      (real (length (filter (\<lambda>(p, g). real th < p \<and> real th / 256 < g)
                       (zip (elems pred) (elems gt)))) + epsilon) /
      (real (length (filter (\<lambda>p. real th < p) (elems pred))) + epsilon)"
    by (simp add: precision_at_def tp_count_eq [OF len] pred_count_eq thresholds_def)
  have bin: "recall_at th pred gt = recall_normalized th pred gt"
    if "\<forall>g \<in> set (elems gt). g = 0 \<or> g = 255"
    by (simp add: recall_at_def recall_normalized_def binary_counts [OF assms(5) that len])
  show ?thesis
    using u r p bin by (simp add: ra pa)
qed

theorem update_gt_threshold_raw_witness:
  "wf_metric init \<and> wf_array (const_image 2 2 7) \<and> wf_array (const_image 2 2 255) \<and>
   shape (const_image 2 2 7) = shape (const_image 2 2 255) \<and> 128 < thresholds \<and>
   snd (update init (const_image 2 2 7) (const_image 2 2 255)) = None \<and>
   recall (fst (update init (const_image 2 2 7) (const_image 2 2 255))) ! 128 =
     epsilon / (4 + epsilon) \<and>
   precision (fst (update init (const_image 2 2 7) (const_image 2 2 255))) ! 128 = 1 \<and>
   recall_normalized 128 (const_image 2 2 7) (const_image 2 2 255) = epsilon / (4 + epsilon)"
proof -
  have w: "wf_array (const_image 2 2 7)" "wf_array (const_image 2 2 255)"
    by (simp_all add: wf_array_def const_image_def)
  have s: "shape (const_image 2 2 7) = shape (const_image 2 2 255)"
    by simp
  have t: "128 < thresholds" by (simp add: thresholds_def)
  have b: "\<forall>g \<in> set (elems (const_image 2 2 255)). g = 0 \<or> g = 255"
    by simp
  have i: "recall init ! 128 = 0" "precision init ! 128 = 0"
    by (simp_all add: init_def thresholds_def)
  have f: "filter (\<lambda>(p, g). real 128 < p \<and> real 128 / 256 < g)
             (zip (elems (const_image 2 2 7)) (elems (const_image 2 2 255))) = []"
    "filter (\<lambda>g. real 128 / 256 < g) (elems (const_image 2 2 255)) = replicate 4 255"
    "filter (\<lambda>p. real 128 < p) (elems (const_image 2 2 7)) = []"
    by (simp_all add: zip_replicate)
  have e: "epsilon \<noteq> 0" using epsilon_pos by simp
  show ?thesis
    using update_gt_threshold_raw [OF wf_metric_init w s t] w s t b wf_metric_init e
    unfolding i f by simp
qed

section \<open>The arrays of the caller\<close>

lemma alloc_eq:
  "alloc h a = (next_free h, h\<lparr>cells := (cells h)(next_free h := a), next_free := Suc (next_free h)\<rparr>)"
  by (simp add: alloc_def)

lemma update_heap_cases:
  assumes p: "pred0 < next_free h" and g: "gt0 < next_free h"
  defines "np \<equiv> div_scalar (cells h pred0) 255" and "ng \<equiv> div_scalar (cells h gt0) 255"
  defines "h4 \<equiv> h\<lparr>cells := (cells h)(next_free h := cells h pred0, Suc (next_free h) := cells h gt0,
                       Suc (Suc (next_free h)) := np, Suc (Suc (Suc (next_free h))) := ng),
                    next_free := Suc (Suc (Suc (Suc (next_free h))))\<rparr>"
  shows "update_heap m pred0 gt0 h =
     (if shape (cells h pred0) \<noteq> shape (cells h gt0) then ((m, Some AssertionError), h)
      else case compute_precision_and_recall (compute_mae m np ng) (cells h pred0) (cells h gt0) of
             (m2, Some e) \<Rightarrow> ((m2, Some e), h4)
           | (m2, None) \<Rightarrow>
               ((fst (compute_s_measure m2 np ng)\<lparr>cnt := cnt (fst (compute_s_measure m2 np ng)) + 1\<rparr>, None),
                h4\<lparr>cells := (cells h4)(Suc (Suc (Suc (next_free h))) := snd (compute_s_measure m2 np ng))\<rparr>))"
proof -
  define n where "n = next_free h"
  define P where "P = cells h pred0"
  define G where "G = cells h gt0"
  define h1 where "h1 = h\<lparr>cells := (cells h)(n := P), next_free := Suc n\<rparr>"
  define h2 where "h2 = h1\<lparr>cells := (cells h1)(Suc n := G), next_free := Suc (Suc n)\<rparr>"
  define h3 where "h3 = h2\<lparr>cells := (cells h2)(Suc (Suc n) := np), next_free := Suc (Suc (Suc n))\<rparr>"
  define h4' where "h4' = h3\<lparr>cells := (cells h3)(Suc (Suc (Suc n)) := ng), next_free := Suc (Suc (Suc (Suc n)))\<rparr>"
  have a1: "alloc h (astype_float32 (cells h pred0)) = (n, h1)"
    by (simp add: alloc_eq h1_def n_def P_def astype_float32_def)
  have g1: "cells h1 gt0 = G"
    using g by (simp add: h1_def n_def G_def)
  have a2: "alloc h1 (astype_float32 (cells h1 gt0)) = (Suc n, h2)"
    by (simp add: alloc_eq h2_def g1 astype_float32_def) (simp add: h1_def)
  have p2: "cells h2 n = P"
    by (simp add: h2_def h1_def)
  have a3: "alloc h2 (div_scalar (cells h2 n) 255) = (Suc (Suc n), h3)"
    by (simp add: alloc_eq h3_def p2 np_def P_def) (simp add: h2_def)
  have g3: "cells h3 (Suc n) = G"
    by (simp add: h3_def h2_def)
  have a4: "alloc h3 (div_scalar (cells h3 (Suc n)) 255) = (Suc (Suc (Suc n)), h4')"
    by (simp add: alloc_eq h4'_def g3 ng_def G_def) (simp add: h3_def)
  have c4: "cells h4' (Suc (Suc n)) = np" "cells h4' (Suc (Suc (Suc n))) = ng"
    "cells h4' n = P" "cells h4' (Suc n) = G"
    by (simp_all add: h4'_def h3_def h2_def h1_def)
  have h4: "h4' = h4"
    by (simp add: h4'_def h3_def h2_def h1_def h4_def n_def P_def G_def)
  have "update_heap m pred0 gt0 h =
     (if shape P \<noteq> shape G then ((m, Some AssertionError), h)
      else case compute_precision_and_recall (compute_mae m np ng) P G of
             (m2, Some e) \<Rightarrow> ((m2, Some e), h4')
           | (m2, None) \<Rightarrow>
               (let (m3, h5) = compute_s_measure_heap m2 (Suc (Suc n)) (Suc (Suc (Suc n))) h4'
                in ((m3\<lparr>cnt := cnt m3 + 1\<rparr>, None), h5)))"
    unfolding update_heap_def a1 Let_def prod.case a2 a3 a4 c4
    unfolding P_def G_def ..
  also have "\<dots> = (if shape P \<noteq> shape G then ((m, Some AssertionError), h)
      else case compute_precision_and_recall (compute_mae m np ng) P G of
             (m2, Some e) \<Rightarrow> ((m2, Some e), h4')
           | (m2, None) \<Rightarrow>
               ((fst (compute_s_measure m2 np ng)\<lparr>cnt := cnt (fst (compute_s_measure m2 np ng)) + 1\<rparr>, None),
                h4'\<lparr>cells := (cells h4')(Suc (Suc (Suc n)) := snd (compute_s_measure m2 np ng))\<rparr>))"
    by (simp add: compute_s_measure_heap_def c4 split_def Let_def)
  finally show ?thesis
    unfolding h4 unfolding P_def G_def n_def .
qed


text \<open>
  Claim C10. \<^verbatim>\<open>update\<close> does not write into the arrays of its caller: every array
  that existed before the call, the two arguments among them, holds the same values
  afterwards, whether or not the call raises. The call computes what \<^verbatim>\<open>update\<close>
  computes on the values of the two arrays, and the masked assignments of
  \<^verbatim>\<open>compute_s_measure\<close> land in the fourth array allocated by the call, the normalised
  copy of the ground truth.
\<close>

theorem update_heap_frame:
  assumes "pred0 < next_free h" and "gt0 < next_free h"
  shows "cells (snd (update_heap m pred0 gt0 h)) pred0 = cells h pred0 \<and>
         cells (snd (update_heap m pred0 gt0 h)) gt0 = cells h gt0 \<and>
         (\<forall>a<next_free h. cells (snd (update_heap m pred0 gt0 h)) a = cells h a) \<and>
         fst (update_heap m pred0 gt0 h) = update m (cells h pred0) (cells h gt0) \<and>
         (snd (update m (cells h pred0) (cells h gt0)) = None \<longrightarrow>
            cells (snd (update_heap m pred0 gt0 h)) (next_free h + 3) =
              snd (s_measure_score (div_scalar (cells h pred0) 255) (div_scalar (cells h gt0) 255)))"
proof -
  let ?P = "cells h pred0" and ?G = "cells h gt0"
  let ?np = "div_scalar ?P 255" and ?ng = "div_scalar ?G 255"
  note uh = update_heap_cases [OF assms, of m]
  obtain m2 e where cpr: "compute_precision_and_recall (compute_mae m ?np ?ng) ?P ?G = (m2, e)"
    by (cases "compute_precision_and_recall (compute_mae m ?np ?ng) ?P ?G")
  have old: "cells (snd (update_heap m pred0 gt0 h)) a = cells h a" if "a < next_free h" for a
    using that unfolding uh cpr by (cases e) simp_all
  have res: "fst (update_heap m pred0 gt0 h) = update m ?P ?G"
    unfolding uh update_def astype_float32_def Let_def cpr
    by (cases e) (simp_all add: split_def)
  have copy: "cells (snd (update_heap m pred0 gt0 h)) (next_free h + 3) = snd (s_measure_score ?np ?ng)"
    if ok: "snd (update m ?P ?G) = None"
  proof -
    have sh: "shape ?P = shape ?G"
      using ok by (auto simp: update_def split: if_splits)
    have "e = None"
      using ok sh unfolding update_def astype_float32_def Let_def cpr
      by (cases e) (simp_all add: split_def)
    then show ?thesis
      unfolding uh cpr using sh by (simp add: compute_s_measure_def split_def Let_def)
  qed
  show ?thesis
    using old [OF assms(1)] old [OF assms(2)] old res copy by blast
qed


theorem update_heap_frame_witness:
  "(0::nat) < next_free caller_heap \<and> (1::nat) < next_free caller_heap \<and>
   cells (snd (update_heap init 0 1 caller_heap)) 0 = two_px \<and>
   cells (snd (update_heap init 0 1 caller_heap)) 1 = two_px \<and>
   snd (fst (update_heap init 0 1 caller_heap)) = None \<and>
   cells (snd (update_heap init 0 1 caller_heap)) 5 = \<lparr>nrows = 1, ncols = 2, elems = [1, 0]\<rparr>"
proof -
  have a: "0 < next_free caller_heap" and b: "1 < next_free caller_heap"
    by (simp_all add: caller_heap_def)
  have c: "cells caller_heap 0 = two_px" "cells caller_heap (Suc 0) = two_px"
    "next_free caller_heap = 2"
    by (simp_all add: caller_heap_def)
  have ok: "snd (update init two_px two_px) = None"
    by (simp add: update_init)
  have nm: "np_mean (elems (div_scalar two_px 255)) = Fin (7 / 10)"
    by (simp add: np_mean_def div_scalar_def two_px_def)
  have s: "snd (s_measure_score (div_scalar two_px 255) (div_scalar two_px 255)) =
           \<lparr>nrows = 1, ncols = 2, elems = [1, 0]\<rparr>"
    unfolding s_measure_score_def Let_def nm
    by (simp add: binarize_half_def assign_where_def div_scalar_def two_px_def)
  show ?thesis
    using a b ok s update_heap_frame [OF a b, of init] by (simp add: c)
qed

section \<open>The centroid\<close>


























section \<open>Every image adds non-negative amounts\<close>

lemma no_inf_simps [simp]: "no_inf (Fin a)" "no_inf NaN" "\<not> no_inf PInf" "\<not> no_inf NInf"
  by (simp_all add: no_inf_def)

lemma no_inf_cases: "no_inf x \<Longrightarrow> (\<And>a. x = Fin a \<Longrightarrow> P) \<Longrightarrow> (x = NaN \<Longrightarrow> P) \<Longrightarrow> P"
  by (cases x) simp_all

lemma no_inf_add: "no_inf a \<Longrightarrow> no_inf b \<Longrightarrow> no_inf (np_add a b)"
  by (cases a; cases b) simp_all

lemma no_inf_neg: "no_inf a \<Longrightarrow> no_inf (np_neg a)"
  by (cases a) simp_all

lemma no_inf_sub: "no_inf a \<Longrightarrow> no_inf b \<Longrightarrow> no_inf (np_sub a b)"
  by (simp add: np_sub_def no_inf_add no_inf_neg)

lemma no_inf_mul: "no_inf a \<Longrightarrow> no_inf b \<Longrightarrow> no_inf (np_mul a b)"
  by (cases a; cases b) simp_all

lemma no_inf_div: "no_inf a \<Longrightarrow> c \<noteq> 0 \<Longrightarrow> no_inf (np_div a (Fin c))"
  by (cases a) simp_all

lemma np_sub_Fin [simp]: "np_sub (Fin a) (Fin b) = Fin (a - b)"
  by (simp add: np_sub_def)

lemma np_sum_Fin: "np_sum (map Fin xs) = Fin (sum_list xs)"
  by (induction xs) simp_all

lemma np_mean_nonempty: "xs \<noteq> [] \<Longrightarrow> np_mean xs = Fin (sum_list xs / real (length xs))"
  by (simp add: np_mean_def)

lemma np_mean_empty: "np_mean [] = NaN"
  by (simp add: np_mean_def)

lemma no_inf_mean: "no_inf (np_mean xs)"
  by (cases "xs = []") (simp_all add: np_mean_nonempty np_mean_empty)

lemma sum_list_squares_nonneg: "0 \<le> sum_list (map (\<lambda>x. (x - c) * (x - c)) (xs :: real list))"
  by (rule sum_list_nonneg) auto

lemma np_std_nonempty:
  assumes "xs \<noteq> []"
  shows "\<exists>s\<ge>0. np_std xs = Fin s"
proof -
  let ?mu = "sum_list xs / real (length xs)"
  let ?ss = "sum_list (map (\<lambda>x. (x - ?mu) * (x - ?mu)) xs)"
  have n: "real (length xs) \<noteq> 0" using assms by simp
  have "map (\<lambda>d. np_mul d d) (map (\<lambda>x. np_sub (Fin x) (Fin ?mu)) xs) =
        map Fin (map (\<lambda>x. (x - ?mu) * (x - ?mu)) xs)"
    by simp
  then have "np_std xs = np_sqrt (np_div (Fin ?ss) (Fin (real (length xs))))"
    unfolding np_std_def Let_def np_mean_nonempty [OF assms] by (simp only: np_sum_Fin)
  also have "\<dots> = np_sqrt (Fin (?ss / real (length xs)))"
    using n by simp
  also have "\<dots> = Fin (sqrt (?ss / real (length xs)))"
    using sum_list_squares_nonneg [of ?mu xs] by (simp add: not_less)
  finally show ?thesis
    using sum_list_squares_nonneg [of ?mu xs] by simp
qed

lemma no_inf_object: "no_inf (object pred gt)"
proof -
  let ?temp = "map fst (filter (\<lambda>(p, g). g = 1) (zip (elems pred) (elems gt)))"
  show ?thesis
  proof (cases "?temp = []")
    case True
    then show ?thesis by (simp add: object_def)
  next
    case False
    obtain s where s: "0 \<le> s" "np_std ?temp = Fin s"
      using np_std_nonempty [OF False] by blast
    let ?x = "sum_list ?temp / real (length ?temp)"
    have x: "np_mean ?temp = Fin ?x" by (rule np_mean_nonempty [OF False])
    have "0 < ?x * ?x + 1 + s + 1 / 10 ^ 20"
      using s(1) by (intro add_nonneg_pos add_nonneg_nonneg add_pos_nonneg) simp_all
    then have d: "?x * ?x + 1 + s + 1 / 10 ^ 20 \<noteq> 0" by simp
    have "object pred gt = np_div (Fin (2 * ?x)) (Fin (?x * ?x + 1 + s + 1 / 10 ^ 20))"
      unfolding object_def Let_def x s(2) using False by simp
    then show ?thesis using d by simp
  qed
qed

lemma no_inf_s_object: "no_inf (s_object pred gt)"
  unfolding s_object_def Let_def
  by (intro no_inf_add no_inf_mul no_inf_sub no_inf_mean no_inf_object no_inf_simps)


lemma np_mul_NaN [simp]: "np_mul z NaN = NaN"
  by (cases z) simp_all

lemma np_add_NaN [simp]: "np_add z NaN = NaN"
  by (cases z) simp_all

lemma np_div_NaN [simp]: "np_div z NaN = NaN"
  by (cases z) simp_all

lemma map2_mul_Fin: "map2 np_mul (map Fin as) (map Fin bs) = map Fin (map2 (*) as bs)"
  by (rule nth_equalityI) simp_all

lemma sum_list_self_products_nonneg: "0 \<le> sum_list (map2 (*) xs (xs :: real list))"
  by (rule sum_list_nonneg) (auto simp: zip_same)

lemma ssim_finite:
  assumes wf: "wf_array pred" and p: "elems pred \<noteq> []" and g: "elems gt \<noteq> []"
  shows "\<exists>r. ssim pred gt = Fin r"
proof -
  let ?n = "nrows pred * ncols pred"
  let ?x = "sum_list (elems pred) / real (length (elems pred))"
  let ?y = "sum_list (elems gt) / real (length (elems gt))"
  let ?dx = "map (\<lambda>p. p - ?x) (elems pred)"
  let ?dy = "map (\<lambda>g. g - ?y) (elems gt)"
  let ?dn = "real ?n - 1 + 1 / 10 ^ 20"
  have n: "1 \<le> ?n"
    using wf p by (cases "?n") (simp_all add: wf_array_def)
  have "real 1 \<le> real ?n"
    using n by (simp only: of_nat_le_iff)
  then have "0 \<le> real ?n - 1" by simp
  moreover have "(0::real) < 1 / 10 ^ 20" by simp
  ultimately have dn: "0 < ?dn"
    by (rule add_nonneg_pos)
  then have dn0: "?dn \<noteq> 0" by simp
  have x: "np_mean (elems pred) = Fin ?x" by (rule np_mean_nonempty [OF p])
  have y: "np_mean (elems gt) = Fin ?y" by (rule np_mean_nonempty [OF g])
  have dx: "map (\<lambda>p. np_sub (Fin p) (Fin ?x)) (elems pred) = map Fin ?dx" by simp
  have dy: "map (\<lambda>g. np_sub (Fin g) (Fin ?y)) (elems gt) = map Fin ?dy" by simp
  let ?sxx = "sum_list (map2 (*) ?dx ?dx) / ?dn"
  let ?syy = "sum_list (map2 (*) ?dy ?dy) / ?dn"
  let ?sxy = "sum_list (map2 (*) ?dx ?dy) / ?dn"
  let ?alpha = "4 * ?x * ?y * ?sxy"
  let ?beta = "(?x * ?x + ?y * ?y) * (?sxx + ?syy)"
  have sxx: "0 \<le> ?sxx" and syy: "0 \<le> ?syy"
    using dn sum_list_self_products_nonneg [of ?dx] sum_list_self_products_nonneg [of ?dy]
    by simp_all
  have sq: "0 \<le> ?x * ?x + ?y * ?y"
    by (rule add_nonneg_nonneg) (rule zero_le_square)+
  have "0 \<le> ?sxx + ?syy"
    using sxx syy by (rule add_nonneg_nonneg)
  with sq have "0 \<le> ?beta"
    by (rule mult_nonneg_nonneg)
  moreover have "(0::real) < 1 / 10 ^ 20" by simp
  ultimately have "0 < ?beta + 1 / 10 ^ 20"
    by (rule add_nonneg_pos)
  then have b: "?beta + 1 / 10 ^ 20 \<noteq> 0"
    by (rule less_imp_neq [THEN not_sym])
  have "ssim pred gt =
      (if \<not> np_eq (Fin ?alpha) (Fin 0) then np_div (Fin ?alpha) (np_add (Fin ?beta) (Fin (1 / 10 ^ 20)))
       else if np_eq (Fin ?alpha) (Fin 0) \<and> np_eq (Fin ?beta) (Fin 0) then Fin 1 else Fin 0)"
    unfolding ssim_def Let_def astype_float32_def x y dx dy map2_mul_Fin np_sum_Fin
    using dn0 by simp
  then show ?thesis
    using b by (simp split: if_splits)
qed

lemma no_inf_ssim:
  assumes "wf_array pred"
  shows "no_inf (ssim pred gt)"
proof (cases "elems pred = [] \<or> elems gt = []")
  case True
  then have "np_mean (elems pred) = NaN \<or> np_mean (elems gt) = NaN"
    by (auto simp: np_mean_empty)
  then have "ssim pred gt = NaN"
    unfolding ssim_def Let_def astype_float32_def by auto
  then show ?thesis by simp
next
  case False
  then obtain r where "ssim pred gt = Fin r"
    using ssim_finite [OF assms] by blast
  then show ?thesis by simp
qed


lemma wf_slice2: "wf_array (slice2 a r0 r1 c0 c1)"
  by (simp add: wf_array_def slice2_def length_concat comp_def sum_list_triv)

lemma no_inf_s_region:
  assumes "0 < nrows gt * ncols gt"
  shows "no_inf (s_region pred gt)"
proof -
  obtain x y where c: "centroid gt = (x, y)" by (cases "centroid gt")
  have a: "real (nrows gt * ncols gt) \<noteq> 0" using assms by simp
  show ?thesis
    unfolding s_region_def c divide_gt_def divide_prediction_def Let_def prod.case
    by (intro no_inf_add no_inf_mul no_inf_sub no_inf_ssim wf_slice2 no_inf_div a no_inf_simps)
qed

lemma np_mean_bounds:
  assumes "xs \<noteq> []" and "\<forall>v \<in> set xs. lo \<le> v \<and> v \<le> hi"
  shows "\<exists>mu. np_mean xs = Fin mu \<and> lo \<le> mu \<and> mu \<le> hi"
proof -
  let ?n = "real (length xs)"
  have n: "0 < ?n" using assms(1) by simp
  have "sum_list (map (\<lambda>_. lo) xs) \<le> sum_list (map (\<lambda>v. v) xs)"
    by (rule sum_list_mono) (use assms(2) in simp)
  then have lo: "?n * lo \<le> sum_list xs" by (simp add: sum_list_triv)
  have "sum_list (map (\<lambda>v. v) xs) \<le> sum_list (map (\<lambda>_. hi) xs)"
    by (rule sum_list_mono) (use assms(2) in simp)
  then have hi: "sum_list xs \<le> ?n * hi" by (simp add: sum_list_triv)
  have "lo \<le> sum_list xs / ?n" using lo n by (simp add: le_divide_eq mult.commute)
  moreover have "sum_list xs / ?n \<le> hi" using hi n by (simp add: divide_le_eq mult.commute)
  ultimately show ?thesis
    using np_mean_nonempty [OF assms(1)] by simp
qed

lemma binarize_half_shape [simp]:
  "nrows (binarize_half gt) = nrows gt" "ncols (binarize_half gt) = ncols gt"
  by (simp_all add: binarize_half_def Let_def)

lemma s_measure_score_nonneg:
  assumes p: "elems pred \<noteq> []" and g: "elems gt \<noteq> []"
    and r: "\<forall>v \<in> set (elems pred). 0 \<le> v \<and> v \<le> 1"
    and a: "0 < nrows gt * ncols gt"
  shows "\<exists>d\<ge>0. py_val (fst (s_measure_score pred gt)) = Fin d"
proof -
  obtain mu where mu: "np_mean (elems pred) = Fin mu" "0 \<le> mu" "mu \<le> 1"
    using np_mean_bounds [OF p r] by blast
  define yv where "yv = sum_list (elems gt) / real (length (elems gt))"
  have y: "np_mean (elems gt) = Fin yv"
    unfolding yv_def by (rule np_mean_nonempty [OF g])
  show ?thesis
  proof (cases "yv = 0")
    case True
    then have "py_val (fst (s_measure_score pred gt)) = Fin (1 - mu)"
      unfolding s_measure_score_def Let_def y mu(1) by simp
    then show ?thesis using mu(3) by simp
  next
    case False
    note y0 = this
    show ?thesis
    proof (cases "yv = 1")
      case True
      then have "py_val (fst (s_measure_score pred gt)) = Fin mu"
        unfolding s_measure_score_def Let_def y mu(1) by simp
      then show ?thesis using mu(2) by simp
    next
      case False
      let ?q0 = "np_add (np_mul (Fin (1 / 2)) (s_object pred (binarize_half gt)))
                   (np_mul (Fin (1 - 1 / 2)) (s_region pred (binarize_half gt)))"
      have sc: "fst (s_measure_score pred gt) =
                  (if np_lt ?q0 (Fin 0) \<or> np_isnan ?q0 then PyInt 0 else NpFloat ?q0)"
        unfolding s_measure_score_def Let_def y using y0 False by simp
      have "no_inf ?q0"
        by (intro no_inf_add no_inf_mul no_inf_s_object no_inf_s_region no_inf_simps)
          (use a in simp)
      then consider (fin) v where "?q0 = Fin v" | (nan) "?q0 = NaN"
        by (auto elim: no_inf_cases)
      then show ?thesis
      proof cases
        case fin
        show ?thesis
          unfolding sc fin by (cases "v < 0") simp_all
      next
        case nan
        show ?thesis
          unfolding sc nan by simp
      qed
    qed
  qed
qed


text \<open>
  A ground truth whose centroid lies in the first row leaves the upper quadrants
  without pixels; their score is \<open>NaN\<close> and so is the region term.
\<close>

lemma ssim_empty: "elems pred = [] \<Longrightarrow> ssim pred gt = NaN"
  unfolding ssim_def Let_def astype_float32_def by (simp add: np_mean_empty)

lemma s_region_top_row:
  assumes "unwrap (snd (centroid gt)) = 0"
  shows "s_region pred gt = NaN"
proof -
  obtain x y where c: "centroid gt = (x, y)" by (cases "centroid gt")
  have y: "unwrap y = 0" using assms by (simp add: c)
  have e: "elems (slice2 pred 0 (py_index (nrows pred) 0) 0 (py_index (ncols pred) (unwrap x))) = []"
    by (simp add: slice2_def py_index_def)
  show ?thesis
    unfolding s_region_def c divide_gt_def divide_prediction_def Let_def prod.case y
      ssim_empty [OF e]
    by simp
qed

lemma div_scalar_elems [simp]: "elems (div_scalar a c) = map (\<lambda>v. v / c) (elems a)"
  "nrows (div_scalar a c) = nrows a" "ncols (div_scalar a c) = ncols a"
  by (simp_all add: div_scalar_def)

lemma np_mean_nonneg:
  assumes "xs \<noteq> []" and "\<forall>v \<in> set xs. 0 \<le> v"
  shows "\<exists>d\<ge>0. np_mean xs = Fin d"
proof -
  have "0 \<le> sum_list xs"
    by (rule sum_list_nonneg) (use assms(2) in simp)
  then have "0 \<le> sum_list xs / real (length xs)"
    by (rule divide_nonneg_nonneg) simp
  then show ?thesis
    using np_mean_nonempty [OF assms(1)] by simp
qed

text \<open>
  Claim C6. For every valid image pair (one shape, at least one pixel, all values from
  \<open>0\<close> to \<open>255\<close>) and every accumulator, \<^verbatim>\<open>update\<close> raises nothing, counts one image
  and adds a non-negative number to \<^verbatim>\<open>mae\<close>, a non-negative number to \<^verbatim>\<open>q\<close>, and
  non-negative (in fact positive) numbers to every entry of \<^verbatim>\<open>precision\<close> and
  \<^verbatim>\<open>recall\<close>; so none of the four sums decreases. The S-measure that is added is never
  negative and never \<open>NaN\<close> or infinite: the combined score is a finite number or
  \<open>NaN\<close>, and a negative or \<open>NaN\<close> score is replaced by \<open>0\<close>.
\<close>

theorem update_adds_nonnegative:
  assumes "valid_pair pred gt" and "wf_metric m"
  shows "snd (update m pred gt) = None \<and>
         cnt (fst (update m pred gt)) = cnt m + 1 \<and>
         (\<exists>d\<ge>0. py_val (mae (fst (update m pred gt))) = np_add (py_val (mae m)) (Fin d)) \<and>
         (\<exists>d\<ge>0. py_val (q (fst (update m pred gt))) = np_add (py_val (q m)) (Fin d)) \<and>
         (\<forall>th<thresholds.
            precision m ! th \<le> precision (fst (update m pred gt)) ! th \<and>
            recall m ! th \<le> recall (fst (update m pred gt)) ! th) \<and>
         (\<forall>a. py_val (mae m) = Fin a \<longrightarrow>
            (\<exists>b\<ge>a. py_val (mae (fst (update m pred gt))) = Fin b)) \<and>
         (\<forall>a. py_val (q m) = Fin a \<longrightarrow>
            (\<exists>b\<ge>a. py_val (q (fst (update m pred gt))) = Fin b))"
proof -
  let ?c = "contribution pred gt"
  have sh: "shape pred = shape gt" and wp: "wf_array pred" and wg: "wf_array gt"
    and ne: "0 < nrows pred" "0 < ncols pred"
    and rp: "\<forall>v \<in> set (elems pred). 0 \<le> v \<and> v \<le> 255"
    and rg: "\<forall>v \<in> set (elems gt). 0 \<le> v \<and> v \<le> 255"
    using assms(1) by (simp_all add: valid_pair_def)
  have dims: "nrows gt = nrows pred" "ncols gt = ncols pred"
    using sh by (simp_all add: shape_def)
  have lp: "length (elems pred) = nrows pred * ncols pred"
    and lg: "length (elems gt) = nrows pred * ncols pred"
    using wp wg dims by (simp_all add: wf_array_def)
  have area: "0 < nrows pred * ncols pred" using ne by simp
  have pne: "elems pred \<noteq> []" and gne: "elems gt \<noteq> []"
    using lp lg area by auto
  have u: "update m pred gt = (merge m ?c, None)"
    using assms(2) sh by (rule update_eq)
  \<comment> \<open>the mean absolute error\<close>
  let ?ds = "map2 (\<lambda>p g. \<bar>p - g\<bar>) (elems (div_scalar pred 255)) (elems (div_scalar gt 255))"
  have "?ds \<noteq> []" using pne gne by (cases "elems pred"; cases "elems gt") simp_all
  moreover have "\<forall>v \<in> set ?ds. 0 \<le> v" by auto
  ultimately have "\<exists>d\<ge>0. np_mean ?ds = Fin d"
    by (rule np_mean_nonneg)
  then obtain dm where dm: "0 \<le> dm" "py_val (mae ?c) = Fin dm"
    by (auto simp: contribution_def)
  \<comment> \<open>the S-measure\<close>
  have "\<forall>v \<in> set (elems (div_scalar pred 255)). 0 \<le> v \<and> v \<le> 1"
    using rp by auto
  moreover have "elems (div_scalar pred 255) \<noteq> []" "elems (div_scalar gt 255) \<noteq> []"
    using pne gne by simp_all
  moreover have "0 < nrows (div_scalar gt 255) * ncols (div_scalar gt 255)"
    using area by (simp add: dims)
  ultimately have "\<exists>d\<ge>0. py_val (fst (s_measure_score (div_scalar pred 255) (div_scalar gt 255))) = Fin d"
    by (intro s_measure_score_nonneg)
  then obtain dq where dq: "0 \<le> dq" "py_val (q ?c) = Fin dq"
    by (auto simp: contribution_def)
  have mae': "py_val (mae (merge m ?c)) = np_add (py_val (mae m)) (Fin dm)"
    by (simp add: merge_def py_val_add dm(2))
  have q': "py_val (q (merge m ?c)) = np_add (py_val (q m)) (Fin dq)"
    by (simp add: merge_def py_val_add dq(2))
  have pr: "precision m ! th \<le> precision (merge m ?c) ! th \<and> recall m ! th \<le> recall (merge m ?c) ! th"
    if th: "th < thresholds" for th
    using precision_at_pos [of th pred gt] recall_at_pos [of th pred gt]
    by (simp add: merge_nth [OF assms(2) wf_metric_contribution th] contribution_nth [OF th])
  show ?thesis
    unfolding u fst_conv snd_conv
  proof (intro conjI allI impI)
    show "cnt (merge m ?c) = cnt m + 1" by (simp add: merge_def contribution_def)
    show "\<exists>d\<ge>0. py_val (mae (merge m ?c)) = np_add (py_val (mae m)) (Fin d)"
      using dm(1) mae' by blast
    show "\<exists>d\<ge>0. py_val (q (merge m ?c)) = np_add (py_val (q m)) (Fin d)"
      using dq(1) q' by blast
    show "precision m ! th \<le> precision (merge m ?c) ! th" if "th < thresholds" for th
      using pr [OF that] by simp
    show "recall m ! th \<le> recall (merge m ?c) ! th" if "th < thresholds" for th
      using pr [OF that] by simp
    show "\<exists>b\<ge>a. py_val (mae (merge m ?c)) = Fin b" if "py_val (mae m) = Fin a" for a
      using dm(1) by (simp add: mae' that)
    show "\<exists>b\<ge>a. py_val (q (merge m ?c)) = Fin b" if "py_val (q m) = Fin a" for a
      using dq(1) by (simp add: q' that)
  qed simp
qed


theorem update_adds_nonnegative_witness:
  "valid_pair left_px left_px \<and> wf_metric init \<and>
   snd (update init left_px left_px) = None \<and>
   cnt (fst (update init left_px left_px)) = cnt init + 1 \<and>
   mae (fst (update init left_px left_px)) = NpFloat (Fin 0) \<and>
   q (fst (update init left_px left_px)) = PyInt 0"
proof -
  have v: "valid_pair left_px left_px"
    by (simp add: valid_pair_def wf_array_def left_px_def)
  have u: "update init left_px left_px = (contribution left_px left_px, None)"
    by (simp add: update_init)
  have n: "div_scalar left_px 255 = \<lparr>nrows = 1, ncols = 2, elems = [1, 0]\<rparr>"
    by (simp add: div_scalar_def left_px_def)
  let ?g = "\<lparr>nrows = 1, ncols = 2, elems = [1, 0]\<rparr>"
  have b: "binarize_half ?g = ?g"
    by (simp add: binarize_half_def assign_where_def)
  have y: "np_mean (elems ?g) = Fin (1 / 2)"
    by (simp add: np_mean_def)
  have c: "unwrap (snd (centroid ?g)) = 0"
    by (simp add: centroid_def row_sums_def round_half_even_def Let_def)
  have s: "fst (s_measure_score ?g ?g) = PyInt 0"
    unfolding s_measure_score_def Let_def y b s_region_top_row [OF c] by simp
  have m: "mae (contribution left_px left_px) = NpFloat (Fin 0)"
    by (simp add: contribution_def n np_mean_def)
  have qq: "q (contribution left_px left_px) = PyInt 0"
    unfolding contribution_def n using s by simp
  show ?thesis
    using v wf_metric_init update_adds_nonnegative [OF v wf_metric_init] m qq
    unfolding u fst_conv snd_conv by blast
qed

end
